theory Spec2Isabelle
  imports Complex_Main "HOL-Library.Sublist"
begin

section \<open>Strings\<close>

text \<open>
  A JavaScript string is a sequence of UTF-16 code units and \<open>.length\<close> counts code
  units. The dashboard draws with block and box glyphs outside ASCII, so a string is
  modelled as a list of code units (integers); \<open>str\<close> embeds an ASCII literal.
\<close>

type_synonym jstring = "int list"

definition str :: "string \<Rightarrow> jstring" where
  "str s = map of_char s"

definition ESC :: jstring where
  "ESC = [27]"

definition CSI :: jstring where
  "CSI = ESC @ str ''[''"

definition repeat_unit :: "int \<Rightarrow> nat \<Rightarrow> jstring" where
  \<comment> \<open>\<open>c.repeat(n)\<close> for a one-unit string \<open>c\<close> and a count that is known to be a
      non-negative integer\<close>
  "repeat_unit c n = replicate n c"

fun show_nat :: "nat \<Rightarrow> jstring" where
  "show_nat n = (if n < 10 then [48 + int n] else show_nat (n div 10) @ [48 + int (n mod 10)])"

declare show_nat.simps [simp del]

definition show_int :: "int \<Rightarrow> jstring" where
  \<comment> \<open>Number-to-string conversion of an integer-valued number (below \<open>10\<^sup>2\<^sup>1\<close> in size)\<close>
  "show_int i = (if i < 0 then str ''-'' @ show_nat (nat (- i)) else show_nat (nat i))"

section \<open>Numbers\<close>

text \<open>
  A JavaScript number is an IEEE 754 binary64 value. The finite ones are rationals, and
  the model computes with \<open>rat\<close>: \<open>NaN\<close> and the infinities are outside it. Sums and
  differences of integers below \<open>2\<^sup>5\<^sup>3\<close> and halving are exact in binary64 and are
  written as exact integer operations. A quotient or product that need not be exact is
  rounded by \<open>fl\<close>, round-to-nearest with ties to the even significand, on the normal
  range (neither overflow nor the loss of precision near zero is modelled): \<open>expo x\<close> is
  the binary exponent of \<open>x > 0\<close>, \<open>2 powi (expo x - 52)\<close> the spacing of the doubles
  around \<open>x\<close>, and \<open>rne\<close> rounds to the nearest integer, ties to even.
\<close>

lemma floor_half_less: "1 \<le> (y::rat) \<Longrightarrow> \<lfloor>y / 2\<rfloor> < \<lfloor>y\<rfloor>"
proof -
  assume y: "1 \<le> y"
  then have f1: "1 \<le> \<lfloor>y\<rfloor>" by linarith
  have "y < of_int \<lfloor>y\<rfloor> + 1" by linarith
  with f1 have "y / 2 < of_int \<lfloor>y\<rfloor>" by linarith
  then show ?thesis by (simp add: floor_less_iff)
qed

function expo_up :: "rat \<Rightarrow> int \<Rightarrow> int" where
  "expo_up x e = (if x < 2 then e else expo_up (x / 2) (e + 1))"
  by pat_completeness auto
termination
proof (relation "measure (\<lambda>(x, e). nat \<lfloor>x\<rfloor>)")
  show "wf (measure (\<lambda>(x::rat, e::int). nat \<lfloor>x\<rfloor>))" by simp
next
  fix x :: rat and e :: int
  assume "\<not> x < 2"
  then have "1 \<le> x" by simp
  from floor_half_less [OF this] have "\<lfloor>x / 2\<rfloor> < \<lfloor>x\<rfloor>" .
  moreover have "0 \<le> \<lfloor>x / 2\<rfloor>" using \<open>1 \<le> x\<close> by simp
  ultimately have "nat \<lfloor>x / 2\<rfloor> < nat \<lfloor>x\<rfloor>" by linarith
  then show "((x / 2, e + 1), (x, e)) \<in> measure (\<lambda>(x, e). nat \<lfloor>x\<rfloor>)"
    by simp
qed

function expo_dn :: "rat \<Rightarrow> int \<Rightarrow> int" where
  "expo_dn x e = (if x \<le> 0 \<or> 1 \<le> x then e else expo_dn (2 * x) (e - 1))"
  by pat_completeness auto
termination
proof (relation "measure (\<lambda>(x, e). nat \<lfloor>1 / x\<rfloor>)")
  show "wf (measure (\<lambda>(x::rat, e::int). nat \<lfloor>1 / x\<rfloor>))" by simp
next
  fix x :: rat and e :: int
  assume "\<not> (x \<le> 0 \<or> 1 \<le> x)"
  then have x: "0 < x" "x < 1" by simp_all
  then have "1 \<le> 1 / x" by simp
  from floor_half_less [OF this] have "\<lfloor>1 / (2 * x)\<rfloor> < \<lfloor>1 / x\<rfloor>"
    by (simp add: mult.commute)
  moreover have "0 \<le> \<lfloor>1 / (2 * x)\<rfloor>" using x by simp
  ultimately have "nat \<lfloor>1 / (2 * x)\<rfloor> < nat \<lfloor>1 / x\<rfloor>" by linarith
  then show "((2 * x, e - 1), (x, e)) \<in> measure (\<lambda>(x, e). nat \<lfloor>1 / x\<rfloor>)"
    by simp
qed

definition expo :: "rat \<Rightarrow> int" where
  "expo x = (if 1 \<le> x then expo_up x 0 else expo_dn x 0)"

definition rne :: "rat \<Rightarrow> int" where
  "rne y = (let f = \<lfloor>y\<rfloor>; r = y - of_int f in
     if r < 1/2 then f else if 1/2 < r then f + 1 else if even f then f else f + 1)"

definition fl :: "rat \<Rightarrow> rat" where
  "fl x = (if x = 0 then 0 else
     let a = \<bar>x\<bar>; u = 2 powi (expo a - 52) in sgn x * (of_int (rne (a / u)) * u))"

lemma expo_up_bounds:
  "1 \<le> x \<Longrightarrow> 2 powi (expo_up x e - e) \<le> x \<and> x < 2 powi (expo_up x e - e + 1)"
proof (induction x e rule: expo_up.induct)
  case (1 x e)
  show ?case
  proof (cases "x < 2")
    case True
    with "1.prems" show ?thesis by simp
  next
    case False
    then have h: "1 \<le> x / 2" by simp
    let ?r = "expo_up (x / 2) (e + 1)"
    from "1.IH" [OF False h]
    have ih: "2 powi (?r - (e + 1)) \<le> x / 2" "x / 2 < 2 powi (?r - (e + 1) + 1)" by simp_all
    have r: "expo_up x e = ?r" using False by (subst expo_up.simps) simp
    have p1: "(2::rat) powi (?r - e) = 2 powi (?r - (e + 1)) * 2"
      using power_int_add_1 [of "2::rat" "?r - (e + 1)"] by simp
    have p2: "(2::rat) powi (?r - e + 1) = 2 powi (?r - (e + 1) + 1) * 2"
      using power_int_add_1 [of "2::rat" "?r - (e + 1) + 1"] by (simp add: algebra_simps)
    show ?thesis unfolding r p1 p2 using ih by auto
  qed
qed

lemma expo_dn_bounds:
  "0 < x \<Longrightarrow> x < 2 \<Longrightarrow> 2 powi (expo_dn x e - e) \<le> x \<and> x < 2 powi (expo_dn x e - e + 1)"
proof (induction x e rule: expo_dn.induct)
  case (1 x e)
  show ?case
  proof (cases "1 \<le> x")
    case True
    with "1.prems" show ?thesis by simp
  next
    case False
    with "1.prems" have c: "\<not> (x \<le> 0 \<or> 1 \<le> x)" by simp
    let ?r = "expo_dn (2 * x) (e - 1)"
    have "0 < 2 * x" "2 * x < 2" using "1.prems" False by simp_all
    from "1.IH" [OF c this]
    have ih: "2 powi (?r - (e - 1)) \<le> 2 * x" "2 * x < 2 powi (?r - (e - 1) + 1)" by simp_all
    have r: "expo_dn x e = ?r" using c by (subst expo_dn.simps) simp
    have p1: "(2::rat) powi (?r - (e - 1)) = 2 powi (?r - e) * 2"
      using power_int_add_1 [of "2::rat" "?r - e"] by (simp add: algebra_simps)
    have p2: "(2::rat) powi (?r - (e - 1) + 1) = 2 powi (?r - e + 1) * 2"
      using power_int_add_1 [of "2::rat" "?r - e + 1"] by (simp add: algebra_simps)
    show ?thesis using ih unfolding r p1 p2 by auto
  qed
qed

lemma expo_bounds:
  assumes "0 < x"
  shows "2 powi (expo x) \<le> x" and "x < 2 powi (expo x + 1)"
proof -
  have "2 powi (expo x) \<le> x \<and> x < 2 powi (expo x + 1)"
  proof (cases "1 \<le> x")
    case True
    then show ?thesis using expo_up_bounds [of x 0] by (simp add: expo_def)
  next
    case False
    then show ?thesis using expo_dn_bounds [of x 0] assms by (simp add: expo_def)
  qed
  then show "2 powi (expo x) \<le> x" and "x < 2 powi (expo x + 1)" by simp_all
qed

lemma rne_cases:
  "rne y = \<lfloor>y\<rfloor> \<and> y - of_int \<lfloor>y\<rfloor> \<le> 1 / 2 \<or> rne y = \<lfloor>y\<rfloor> + 1 \<and> 1 / 2 \<le> y - of_int \<lfloor>y\<rfloor>"
  unfolding rne_def Let_def by auto

lemma rne_error: "\<bar>of_int (rne y) - y\<bar> \<le> 1 / 2"
proof -
  have "of_int \<lfloor>y\<rfloor> \<le> y" "y < of_int \<lfloor>y\<rfloor> + 1" by linarith+
  with rne_cases [of y] show ?thesis by (auto simp: abs_le_iff)
qed

lemma rne_le: "y \<le> of_int n \<Longrightarrow> rne y \<le> n"
proof -
  assume a: "y \<le> of_int n"
  then have f: "\<lfloor>y\<rfloor> \<le> n" by (simp add: floor_le_iff)
  from rne_cases [of y] show ?thesis
  proof
    assume "rne y = \<lfloor>y\<rfloor> \<and> y - of_int \<lfloor>y\<rfloor> \<le> 1 / 2"
    with f show ?thesis by simp
  next
    assume h: "rne y = \<lfloor>y\<rfloor> + 1 \<and> 1 / 2 \<le> y - of_int \<lfloor>y\<rfloor>"
    then have "(of_int \<lfloor>y\<rfloor> :: rat) < of_int n" using a by linarith
    then have "\<lfloor>y\<rfloor> < n" by simp
    with h show ?thesis by simp
  qed
qed

lemma rne_ge: "of_int n \<le> y \<Longrightarrow> n \<le> rne y"
proof -
  assume a: "of_int n \<le> y"
  then have f: "n \<le> \<lfloor>y\<rfloor>" by (simp add: le_floor_iff)
  from rne_cases [of y] f show ?thesis by auto
qed

lemma fl_pos:
  "0 < x \<Longrightarrow> fl x = of_int (rne (x / 2 powi (expo x - 52))) * 2 powi (expo x - 52)"
  by (simp add: fl_def Let_def)

lemma fl_nonneg: "0 \<le> x \<Longrightarrow> 0 \<le> fl x"
proof (cases "x = 0")
  case True
  then show ?thesis by (simp add: fl_def)
next
  case False
  assume "0 \<le> x"
  with False have x: "0 < x" by simp
  have u: "(0::rat) < 2 powi (expo x - 52)" by simp
  then have "of_int 0 \<le> x / 2 powi (expo x - 52)" using x by simp
  then have "0 \<le> rne (x / 2 powi (expo x - 52))" by (rule rne_ge)
  then show ?thesis using u by (simp add: fl_pos [OF x])
qed

lemma ulp_le:
  assumes "0 < x"
  shows "2 powi (expo x - 52) \<le> x / 2 ^ 52"
proof -
  have "(2::rat) powi (expo x - 52) = 2 powi (expo x) / 2 powi 52"
    by (rule power_int_diff) simp
  also have "\<dots> \<le> x / 2 powi 52"
    using expo_bounds(1) [OF assms] by (simp add: divide_right_mono)
  finally show ?thesis by simp
qed

lemma fl_error:
  assumes "0 < x"
  shows "\<bar>fl x - x\<bar> \<le> x / 2 ^ 53"
proof -
  define u :: rat where "u = 2 powi (expo x - 52)"
  have u: "0 < u" by (simp add: u_def)
  have "fl x - x = (of_int (rne (x / u)) - x / u) * u"
    using u by (simp add: fl_pos [OF assms] u_def algebra_simps)
  then have "\<bar>fl x - x\<bar> = \<bar>of_int (rne (x / u)) - x / u\<bar> * u"
    using u by (simp add: abs_mult)
  also have "\<dots> \<le> (1 / 2) * u"
    using rne_error [of "x / u"] u by (intro mult_right_mono) simp_all
  also have "\<dots> \<le> (1 / 2) * (x / 2 ^ 52)"
    using ulp_le [OF assms] by (simp add: u_def)
  also have "\<dots> = x / 2 ^ 53" by simp
  finally show ?thesis .
qed

lemma expo_small:
  assumes "0 < x" and "x < 2 ^ 53"
  shows "expo x \<le> 52"
proof (rule ccontr)
  assume "\<not> expo x \<le> 52"
  then have "53 \<le> expo x" by simp
  then have "(2::rat) powi 53 \<le> 2 powi (expo x)"
    by (intro power_int_increasing) simp_all
  with expo_bounds(1) [OF assms(1)] assms(2) show False by simp
qed

lemma ulp_small:
  assumes "expo x \<le> 52"
  shows "(2::rat) powi (expo x - 52) * 2 ^ nat (52 - expo x) = 1"
proof -
  have "(2::rat) ^ nat (52 - expo x) = 2 powi (52 - expo x)"
    using assms by (simp add: power_int_nonneg_exp)
  moreover have "(2::rat) powi (expo x - 52) * 2 powi (52 - expo x) = 2 powi ((expo x - 52) + (52 - expo x))"
    by (rule power_int_add [symmetric]) simp
  ultimately show ?thesis by simp
qed

lemma fl_le_int:
  assumes "0 \<le> x" and "x \<le> of_int n" and "n < 2 ^ 53"
  shows "fl x \<le> of_int n"
proof (cases "x = 0")
  case True
  with assms show ?thesis by (simp add: fl_def)
next
  case False
  with assms have x: "0 < x" by simp
  define u :: rat where "u = 2 powi (expo x - 52)"
  define k where "k = nat (52 - expo x)"
  have u: "0 < u" by (simp add: u_def)
  have "x < 2 ^ 53"
  proof -
    have "(of_int n :: rat) < of_int (2 ^ 53)" using assms(3) by (simp only: of_int_less_iff)
    with assms(2) show ?thesis by simp
  qed
  then have "expo x \<le> 52" by (rule expo_small [OF x])
  then have uk: "u * 2 ^ k = 1" unfolding u_def k_def by (rule ulp_small)
  then have inv: "1 / u = 2 ^ k" using u by (simp add: field_simps)
  have "x / u = x * 2 ^ k" using inv by (simp add: divide_inverse)
  also have "\<dots> \<le> of_int n * 2 ^ k" using assms(2) by (simp add: mult_right_mono)
  also have "\<dots> = of_int (n * 2 ^ k)" by simp
  finally have "rne (x / u) \<le> n * 2 ^ k" by (rule rne_le)
  then have "(of_int (rne (x / u)) :: rat) \<le> of_int (n * 2 ^ k)" by (simp only: of_int_le_iff)
  then have "of_int (rne (x / u)) * u \<le> of_int (n * 2 ^ k) * u"
    using u by (simp add: mult_right_mono)
  also have "\<dots> = of_int n * (u * 2 ^ k)" by simp
  also have "\<dots> = of_int n" using uk by simp
  finally have "of_int (rne (x / u)) * u \<le> of_int n" .
  then show ?thesis by (simp add: fl_pos [OF x] u_def)
qed

lemma fl_ge_int:
  assumes "of_int n \<le> x" and "0 \<le> n" and "n < 2 ^ 53"
  shows "of_int n \<le> fl x"
proof (cases "n = 0")
  case True
  with assms fl_nonneg [of x] show ?thesis by simp
next
  case False
  with assms have n: "0 < n" by simp
  then have "(0::rat) < of_int n" by simp
  with assms(1) have x: "0 < x" by linarith
  define u :: rat where "u = 2 powi (expo x - 52)"
  define k where "k = nat (52 - expo x)"
  have u: "0 < u" by (simp add: u_def)
  show ?thesis
  proof (cases "expo x \<le> 52")
    case True
    then have uk: "u * 2 ^ k = 1" unfolding u_def k_def by (rule ulp_small)
    then have inv: "1 / u = 2 ^ k" using u by (simp add: field_simps)
    have "(of_int (n * 2 ^ k) :: rat) = of_int n * 2 ^ k" by simp
    also have "\<dots> \<le> x * 2 ^ k" using assms(1) by (simp add: mult_right_mono)
    also have "\<dots> = x / u" using inv by (simp add: divide_inverse)
    finally have "n * 2 ^ k \<le> rne (x / u)" by (rule rne_ge)
    then have "(of_int (n * 2 ^ k) :: rat) \<le> of_int (rne (x / u))" by (simp only: of_int_le_iff)
    then have le: "of_int (n * 2 ^ k) * u \<le> of_int (rne (x / u)) * u"
      using u by (simp add: mult_right_mono)
    have "(of_int n :: rat) = of_int n * (u * 2 ^ k)" using uk by simp
    also have "\<dots> = of_int (n * 2 ^ k) * u" by simp
    also note le
    finally have "of_int n \<le> of_int (rne (x / u)) * u" .
    then show ?thesis by (simp add: fl_pos [OF x] u_def)
  next
    case False
    then have e: "53 \<le> expo x" by simp
    have "(2::rat) powi (expo x) = 2 powi (expo x - 52) * 2 powi 52"
      using power_int_add [of "2::rat" "expo x - 52" 52] by simp
    then have pe: "(2::rat) powi (expo x) = u * 2 ^ 52" by (simp add: u_def)
    have "of_int (2 ^ 52) * u \<le> x" using expo_bounds(1) [OF x] pe by (simp add: mult.commute)
    then have "of_int (2 ^ 52) \<le> x / u" using u by (simp add: pos_le_divide_eq)
    then have "2 ^ 52 \<le> rne (x / u)" by (rule rne_ge)
    then have "(of_int (2 ^ 52) :: rat) \<le> of_int (rne (x / u))" by (simp only: of_int_le_iff)
    then have "of_int (2 ^ 52) * u \<le> of_int (rne (x / u)) * u"
      using u by (simp add: mult_right_mono)
    then have "2 powi (expo x) \<le> fl x" by (simp add: fl_pos [OF x] pe u_def mult.commute)
    moreover have "(2::rat) powi 53 \<le> 2 powi (expo x)"
      using e by (intro power_int_increasing) simp_all
    moreover have "(of_int n :: rat) < of_int (2 ^ 53)" using assms(3) by (simp only: of_int_less_iff)
    ultimately show ?thesis by simp
  qed
qed

lemma fl_int:
  assumes "0 \<le> n" and "n < 2 ^ 53"
  shows "fl (of_int n) = of_int n"
proof (rule antisym)
  show "fl (of_int n) \<le> of_int n" using assms by (intro fl_le_int) simp_all
  show "of_int n \<le> fl (of_int n)" using assms by (intro fl_ge_int) simp_all
qed

lemma floor_fl_div:
  assumes "0 \<le> a" and "0 < b" and "a < 2 ^ 53"
  shows "\<lfloor>fl (of_int a / of_int b)\<rfloor> = a div b"
proof -
  define x :: rat where "x = of_int a / of_int b"
  define n where "n = a div b"
  have b: "(0::rat) < of_int b" using assms(2) by simp
  have n0: "0 \<le> n" using assms by (simp add: n_def pos_imp_zdiv_nonneg_iff)
  have "n \<le> a" using assms unfolding n_def by (metis div_by_1 int_one_le_iff_zero_less zdiv_mono2 order_refl)
  then have n53: "n < 2 ^ 53" using assms(3) by simp
  have "n * b \<le> a" unfolding n_def
    using pos_mod_sign [OF assms(2), of a] div_mult_mod_eq [of a b] by linarith
  then have "(of_int (n * b) :: rat) \<le> of_int a" by (simp only: of_int_le_iff)
  then have lo: "of_int n \<le> x" using b by (simp add: x_def pos_le_divide_eq)
  have "a mod b \<le> b - 1" using assms(2) pos_mod_bound [of b a] by simp
  then have "a \<le> n * b + (b - 1)" unfolding n_def
    using div_mult_mod_eq [of a b] by linarith
  then have "(of_int a :: rat) \<le> of_int (n * b + (b - 1))" by (simp only: of_int_le_iff)
  then have hi: "x \<le> of_int n + 1 - 1 / of_int b"
    using b by (simp add: x_def field_simps)
  have x0: "0 \<le> x" using assms b by (simp add: x_def)
  have ge: "of_int n \<le> fl x" using lo n0 n53 by (rule fl_ge_int)
  have lt: "fl x < of_int n + 1"
  proof (cases "x = 0")
    case True
    then show ?thesis using n0 by (simp add: fl_def)
  next
    case False
    with x0 have xp: "0 < x" by simp
    have "(of_int a :: rat) < of_int (2 ^ 53)" using assms(3) by (simp only: of_int_less_iff)
    then have "x * of_int b < 2 ^ 53" using b by (simp add: x_def)
    then have "x / 2 ^ 53 < 1 / of_int b" using b by (simp add: field_simps)
    moreover have "fl x \<le> x + x / 2 ^ 53" using fl_error [OF xp] by linarith
    ultimately show ?thesis using hi by linarith
  qed
  have "\<lfloor>fl x\<rfloor> = n" using ge lt by (intro floor_unique) simp_all
  then show ?thesis by (simp add: x_def n_def)
qed

definition js_round :: "rat \<Rightarrow> int" where
  \<comment> \<open>\<open>Math.round\<close>: the nearest integer, a tie going up\<close>
  "js_round x = \<lfloor>x + 1 / 2\<rfloor>"

definition js_rem :: "int \<Rightarrow> int \<Rightarrow> int" where
  \<comment> \<open>\<open>a % b\<close> on integers: the remainder has the sign of the dividend\<close>
  "js_rem a b = sgn a * (\<bar>a\<bar> mod \<bar>b\<bar>)"

section \<open>Text metrics\<close>

text \<open>
  The three layout helpers strip colour sequences with
  \<^verbatim>\<open>text.replace(/\x1b\[[0-9;]*m/g, '')\<close>.
  \<open>sgr_tail\<close> matches \<^verbatim>\<open>[0-9;]*m\<close> at the head of its argument and returns
  what follows the match; as \<open>m\<close> is not a parameter character the greedy star has one
  way to match. \<open>sgr_match\<close> is the whole pattern anchored at the head, and
  \<open>strip_ansi\<close> is the global replace: scan from the left, drop a match and go on
  behind it, otherwise keep the unit and move one unit on.
\<close>

definition is_param :: "int \<Rightarrow> bool" where
  "is_param c \<longleftrightarrow> (48 \<le> c \<and> c \<le> 57) \<or> c = 59"

fun sgr_tail :: "jstring \<Rightarrow> jstring option" where
  "sgr_tail [] = None"
| "sgr_tail (c # cs) =
     (if is_param c then sgr_tail cs else if c = 109 then Some cs else None)"

fun sgr_match :: "jstring \<Rightarrow> jstring option" where
  "sgr_match (e # b # cs) = (if e = 27 \<and> b = 91 then sgr_tail cs else None)"
| "sgr_match _ = None"

lemma sgr_tail_length: "sgr_tail cs = Some r \<Longrightarrow> length r < length cs"
  by (induction cs) (auto split: if_splits)

lemma sgr_match_length: "sgr_match cs = Some r \<Longrightarrow> length r < length cs"
  by (cases cs rule: sgr_match.cases) (auto split: if_splits dest: sgr_tail_length)

function strip_ansi :: "jstring \<Rightarrow> jstring" where
  "strip_ansi [] = []"
| "strip_ansi (c # cs) =
     (case sgr_match (c # cs) of
        Some rest \<Rightarrow> strip_ansi rest
      | None \<Rightarrow> c # strip_ansi cs)"
  by pat_completeness auto
termination
  by (relation "measure length") (auto dest: sgr_match_length)

definition displayWidth :: "jstring \<Rightarrow> nat" where
  \<comment> \<open>\<open>plain.length\<close> in \<open>centerText\<close>, \<open>padRight\<close>, \<open>truncate\<close> and \<open>drawBox\<close>\<close>
  "displayWidth text = length (strip_ansi text)"

definition centerText :: "jstring \<Rightarrow> int \<Rightarrow> jstring" where
  "centerText text width =
     (let pad = max 0 ((width - int (displayWidth text)) div 2)
      in repeat_unit 32 (nat pad) @ text)"

definition padRight :: "jstring \<Rightarrow> int \<Rightarrow> jstring" where
  "padRight text width =
     (let pad = max 0 (width - int (displayWidth text))
      in text @ repeat_unit 32 (nat pad))"

definition substring :: "jstring \<Rightarrow> int \<Rightarrow> int \<Rightarrow> jstring" where
  \<comment> \<open>\<open>String.prototype.substring\<close>: both indices are clamped to \<open>[0, length]\<close> and
      swapped when the first is the larger\<close>
  "substring s a b =
     (let n = int (length s);
          a' = min (max a 0) n;
          b' = min (max b 0) n;
          lo = min a' b';
          hi = max a' b'
      in take (nat (hi - lo)) (drop (nat lo) s))"

definition truncate_text :: "jstring \<Rightarrow> int \<Rightarrow> jstring" where
  \<comment> \<open>\<open>truncate\<close> of the source\<close>
  "truncate_text text maxLen =
     (if int (displayWidth text) \<le> maxLen then text
      else substring text 0 (maxLen - 3) @ str ''...'')"

section \<open>Escape sequences and the palette\<close>

definition ansi_clear :: jstring where
  "ansi_clear = CSI @ str ''2J'' @ CSI @ str ''H''"

definition ansi_hideCursor :: jstring where
  "ansi_hideCursor = CSI @ str ''?25l''"

definition ansi_showCursor :: jstring where
  "ansi_showCursor = CSI @ str ''?25h''"

definition ansi_reset :: jstring where
  "ansi_reset = CSI @ str ''0m''"

definition ansi_bold :: jstring where
  "ansi_bold = CSI @ str ''1m''"

definition ansi_fg :: "nat \<Rightarrow> nat \<Rightarrow> nat \<Rightarrow> jstring" where
  "ansi_fg r g b =
     CSI @ str ''38;2;'' @ show_nat r @ str '';'' @ show_nat g @ str '';'' @ show_nat b @ str ''m''"

definition ansi_bg :: "nat \<Rightarrow> nat \<Rightarrow> nat \<Rightarrow> jstring" where
  "ansi_bg r g b =
     CSI @ str ''48;2;'' @ show_nat r @ str '';'' @ show_nat g @ str '';'' @ show_nat b @ str ''m''"

definition ansi_moveTo :: "int \<Rightarrow> int \<Rightarrow> jstring" where
  "ansi_moveTo row col = CSI @ show_int row @ str '';'' @ show_int col @ str ''H''"

definition colors_bg :: jstring where "colors_bg = ansi_bg 30 16 12"
definition colors_title :: jstring where "colors_title = ansi_fg 215 105 70"
definition colors_label :: jstring where "colors_label = ansi_fg 180 180 200"
definition colors_value :: jstring where "colors_value = ansi_fg 255 255 255"
definition colors_dim :: jstring where "colors_dim = ansi_fg 120 100 95"
definition colors_green :: jstring where "colors_green = ansi_fg 120 220 150"
definition colors_yellow :: jstring where "colors_yellow = ansi_fg 230 200 100"
definition colors_red :: jstring where "colors_red = ansi_fg 230 110 110"
definition colors_border :: jstring where "colors_border = ansi_fg 100 55 45"
definition colors_separator :: jstring where "colors_separator = ansi_fg 75 45 38"

definition colorForPercent :: "rat \<Rightarrow> jstring" where
  "colorForPercent pct =
     (if pct \<le> 50 then colors_green
      else if pct \<le> 80 then colors_yellow
      else colors_red)"

section \<open>Widgets\<close>

text \<open>
  \<open>String.prototype.repeat\<close> throws a \<open>RangeError\<close> on a negative count; the error
  carries the count, which the engine prints in its message. (The engine's upper limit
  on the length of a string is not modelled.) The glyphs are U+2588 (full block, 9608)
  and U+2591 (light shade, 9617).
\<close>

datatype js_error = RangeError int | TypeError

definition repeat :: "int \<Rightarrow> int \<Rightarrow> js_error + jstring" where
  "repeat c n = (if n < 0 then Inl (RangeError n) else Inr (repeat_unit c (nat n)))"

definition filledCells :: "rat \<Rightarrow> int \<Rightarrow> int" where
  \<comment> \<open>\<open>Math.round((percent / 100) * width)\<close>: the quotient and the product are each
      rounded to a double\<close>
  "filledCells percent width = js_round (fl (fl (percent / 100) * of_int width))"

definition progressBar :: "rat \<Rightarrow> int \<Rightarrow> js_error + jstring" where
  "progressBar percent width =
     (let filled = filledCells percent width;
          empty = width - filled;
          color = colorForPercent percent
      in case repeat 9608 filled of
           Inl e \<Rightarrow> Inl e
         | Inr blocks \<Rightarrow>
             (case repeat 9617 empty of
                Inl e \<Rightarrow> Inl e
              | Inr shade \<Rightarrow> Inr (color @ blocks @ colors_dim @ shade @ ansi_reset)))"

definition toFixed0 :: "rat \<Rightarrow> jstring" where
  \<comment> \<open>\<open>x.toFixed(0)\<close>: the nearest integer to the exact value, a tie going away from
      zero, and the sign kept\<close>
  "toFixed0 x =
     (if x < 0 then str ''-'' @ show_nat (nat \<lfloor>- x + 1 / 2\<rfloor>)
      else show_nat (nat \<lfloor>x + 1 / 2\<rfloor>))"

definition formatPercent :: "rat \<Rightarrow> jstring" where
  "formatPercent pct = colorForPercent pct @ toFixed0 pct @ str ''%'' @ ansi_reset"

definition formatDuration :: "int \<Rightarrow> jstring" where
  \<comment> \<open>\<open>ms\<close> is a whole number of milliseconds, as every difference of two clock
      readings is\<close>
  "formatDuration ms =
     (let totalSec = \<lfloor>fl (of_int ms / 1000)\<rfloor>;
          hours = \<lfloor>fl (of_int totalSec / 3600)\<rfloor>;
          minutes = \<lfloor>fl (of_int (js_rem totalSec 3600) / 60)\<rfloor>
      in if hours > 0
         then show_int hours @ str ''h'' @ (if minutes > 0 then show_int minutes @ str ''m'' else [])
         else show_int minutes @ str ''m'')"

definition formatResetTime :: "int option \<Rightarrow> int \<Rightarrow> jstring" where
  \<comment> \<open>\<open>resetAt\<close> is the instant \<open>new Date(resetAt).getTime()\<close> of a reset string, \<open>None\<close>
      when the field is null, missing or empty; \<open>now\<close> is the reading of \<open>Date.now()\<close>.
      A string that is no date is outside the model.\<close>
  "formatResetTime resetAt now =
     (case resetAt of
        None \<Rightarrow> []
      | Some resetMs \<Rightarrow>
          (let remainMs = resetMs - now
           in if remainMs \<le> 0 then str ''now'' else formatDuration remainMs))"

section \<open>The view model\<close>

text \<open>
  \<open>fetchUsageLimits\<close> returns \<open>null\<close> or an object of three windows, each \<open>null\<close> when
  the service did not report it; a reported window carries its utilization (a number)
  and the instant of its reset. \<open>state\<close> is the object of that name in \<open>main\<close>.
\<close>

record usage_window =
  utilization :: rat
  resets_at :: "int option"

record usage =
  five_hour :: "usage_window option"
  seven_day :: "usage_window option"
  seven_day_sonnet :: "usage_window option"

record config =
  plan :: jstring
  displayMode :: jstring

record state =
  loading :: bool
  error :: "jstring option"
  data :: "usage option"
  config :: config
  effort :: jstring
  startTime :: int
  lastRefresh :: "int option"
  refreshCount :: nat

definition truthy_str :: "jstring option \<Rightarrow> bool" where
  \<comment> \<open>truthiness of a value that is \<open>null\<close> or a string\<close>
  "truthy_str v \<longleftrightarrow> (case v of None \<Rightarrow> False | Some s \<Rightarrow> s \<noteq> [])"

definition truthy_num :: "int option \<Rightarrow> bool" where
  \<comment> \<open>truthiness of a value that is \<open>null\<close> or a number\<close>
  "truthy_num v \<longleftrightarrow> (case v of None \<Rightarrow> False | Some n \<Rightarrow> n \<noteq> 0)"

section \<open>Drawing\<close>

text \<open>
  The box glyphs are U+250C, U+2500, U+2510, U+2514, U+2518 and U+2502. \<open>width\<close> is
  an integer, as the terminal sizes the host reports are.
\<close>

definition drawSeparator :: "int \<Rightarrow> js_error + jstring" where
  "drawSeparator width =
     (case repeat 9472 (width - 2) of
        Inl e \<Rightarrow> Inl e
      | Inr dashes \<Rightarrow> Inr (colors_separator @ dashes @ ansi_reset))"

definition boxRow :: "int \<Rightarrow> jstring \<Rightarrow> jstring" where
  \<comment> \<open>the body of the loop of \<open>drawBox\<close>\<close>
  "boxRow width line =
     (let pad = max 0 (width - 2 - int (displayWidth line))
      in colors_border @ [9474] @ ansi_reset @ str '' '' @ line @
         repeat_unit 32 (nat (if pad > 0 then pad - 1 else 0)) @
         colors_border @ [9474] @ ansi_reset)"

definition drawBox :: "jstring list \<Rightarrow> int \<Rightarrow> js_error + jstring list" where
  "drawBox lines width =
     (case repeat 9472 (width - 2) of
        Inl e \<Rightarrow> Inl e
      | Inr dashes \<Rightarrow>
          (let topBorder = colors_border @ [9484] @ dashes @ [9488] @ ansi_reset;
               botBorder = colors_border @ [9492] @ dashes @ [9496] @ ansi_reset
           in Inr ([topBorder] @ map (boxRow width) lines @ [botBorder])))"

definition windowText :: "jstring \<Rightarrow> usage_window \<Rightarrow> int \<Rightarrow> jstring \<Rightarrow> jstring" where
  \<comment> \<open>the line of a reported window around its progress bar\<close>
  "windowText label w now bar =
     (let pct = js_round (utilization w);
          reset = formatResetTime (resets_at w) now
      in str ''  '' @ colors_label @ label @ ansi_reset @
         bar @ str ''  '' @ formatPercent (of_int pct) @
         (if reset \<noteq> [] then colors_dim @ str ''  ('' @ reset @ str '')'' @ ansi_reset
          else []))"

definition windowLine :: "jstring \<Rightarrow> usage_window \<Rightarrow> int \<Rightarrow> js_error + jstring" where
  \<comment> \<open>the line pushed for a reported window; \<open>render\<close> has this text three times, with
      the labels \<open>5h\<close>, \<open>7d\<close> and \<open>7d-S\<close>\<close>
  "windowLine label w now =
     (case progressBar (of_int (js_round (utilization w))) 25 of
        Inl e \<Rightarrow> Inl e
      | Inr bar \<Rightarrow> Inr (windowText label w now bar))"

definition windowSlot :: "jstring \<Rightarrow> usage_window option \<Rightarrow> int \<Rightarrow> js_error + jstring list" where
  \<comment> \<open>\<open>if (data.x) { ... lines.push(...) }\<close>: nothing is pushed for an absent window\<close>
  "windowSlot label w now =
     (case w of
        None \<Rightarrow> Inr []
      | Some win \<Rightarrow> (case windowLine label win now of Inl e \<Rightarrow> Inl e | Inr l \<Rightarrow> Inr [l]))"

definition noDataLine :: jstring where
  "noDataLine = str ''  '' @ colors_dim @ str ''No rate limit data available'' @ ansi_reset"

definition fetchFailedLines :: "jstring list" where
  "fetchFailedLines =
     [str ''  '' @ colors_yellow @ str ''Failed to fetch rate limits'' @ ansi_reset,
      str ''  '' @ colors_dim @ str ''Check ~/.claude/.credentials.json'' @ ansi_reset]"

definition rateLimitLines :: "usage option \<Rightarrow> int \<Rightarrow> js_error + jstring list" where
  \<comment> \<open>the lines pushed by \<open>if (data) { ... } else { ... }\<close> in \<open>render\<close>\<close>
  "rateLimitLines d now =
     (case d of
        None \<Rightarrow> Inr fetchFailedLines
      | Some u \<Rightarrow>
          (case windowSlot (str ''5h   '') (five_hour u) now of
             Inl e \<Rightarrow> Inl e
           | Inr l5 \<Rightarrow>
               (case windowSlot (str ''7d   '') (seven_day u) now of
                  Inl e \<Rightarrow> Inl e
                | Inr l7 \<Rightarrow>
                    (case windowSlot (str ''7d-S '') (seven_day_sonnet u) now of
                       Inl e \<Rightarrow> Inl e
                     | Inr l7s \<Rightarrow>
                         Inr (l5 @ l7 @ l7s @
                              (if five_hour u = None \<and> seven_day u = None \<and>
                                  seven_day_sonnet u = None
                               then [noDataLine] else []))))))"

definition titleLine :: "int \<Rightarrow> jstring" where
  "titleLine width =
     centerText (colors_title @ ansi_bold @ str '' Claude Dashboard '' @ ansi_reset @
                 colors_dim @ str ''v1.0.1'' @ ansi_reset) width"

definition effortLabel :: "jstring \<Rightarrow> jstring" where
  \<comment> \<open>\<open>effortMap[state.effort] || 'H'\<close> for the three keys of \<open>effortMap\<close>\<close>
  "effortLabel e =
     (if e = str ''high'' then str ''H''
      else if e = str ''medium'' then str ''M''
      else if e = str ''low'' then str ''L''
      else str ''H'')"

definition modelLine :: "jstring \<Rightarrow> jstring" where
  "modelLine e =
     str ''  '' @ colors_label @ str ''Model: '' @ ansi_reset @
     colors_value @ ansi_bold @
     (if e \<noteq> str ''high'' then str ''['' @ effortLabel e @ str ''] '' else []) @
     str ''Claude'' @ ansi_reset"

definition sessionLines :: "state \<Rightarrow> int \<Rightarrow> jstring list" where
  "sessionLines s now =
     (let elapsed = now - startTime s
      in [str ''  '' @ colors_label @ str ''Uptime: '' @ ansi_reset @
          colors_value @ formatDuration elapsed @ ansi_reset @
          colors_dim @ str ''  |  '' @ ansi_reset @
          colors_label @ str ''Refreshes: '' @ ansi_reset @
          colors_value @ show_nat (refreshCount s) @ ansi_reset] @
         (if truthy_num (lastRefresh s)
          then (let ago = \<lfloor>fl (of_int (now - the (lastRefresh s)) / 1000)\<rfloor>
                in [str ''  '' @ colors_label @ str ''Last update: '' @ ansi_reset @
                    colors_dim @ show_int ago @ str ''s ago'' @ ansi_reset])
          else []))"

definition planLine :: "state \<Rightarrow> jstring" where
  "planLine s =
     str ''  '' @ colors_label @ str ''Plan: '' @ ansi_reset @
     colors_value @ (if plan (config s) = str ''max'' then str ''Max'' else str ''Pro'') @
     ansi_reset"

definition keysLine :: jstring where
  "keysLine =
     str ''  '' @ colors_dim @
     str ''[r] Refresh  [ESC] Close  [1] Compact  [2] Normal  [3] Detailed'' @
     ansi_reset"

definition titleLines :: "int \<Rightarrow> jstring list" where
  "titleLines width = [[], titleLine width, []]"

definition panelHead :: "state \<Rightarrow> int \<Rightarrow> jstring \<Rightarrow> jstring list" where
  \<comment> \<open>the lines of the full panel above the rate limits; \<open>sep\<close> is the separator\<close>
  "panelHead s width sep =
     titleLines width @
     [modelLine (effort s), [],
      str ''  '' @ colors_title @ ansi_bold @ str ''Rate Limits'' @ ansi_reset,
      str ''  '' @ sep]"

definition panelTail :: "state \<Rightarrow> int \<Rightarrow> jstring \<Rightarrow> jstring list" where
  \<comment> \<open>the lines of the full panel below the rate limits\<close>
  "panelTail s now sep =
     [[],
      str ''  '' @ colors_title @ ansi_bold @ str ''Session'' @ ansi_reset,
      str ''  '' @ sep] @
     sessionLines s now @
     [[],
      str ''  '' @ colors_title @ ansi_bold @ str ''Account'' @ ansi_reset,
      str ''  '' @ sep,
      planLine s,
      [],
      str ''  '' @ sep,
      keysLine] @
     [[]]"

definition contentLines :: "state \<Rightarrow> int \<Rightarrow> int \<Rightarrow> js_error + jstring list" where
  \<comment> \<open>the array \<open>lines\<close> of \<open>render\<close> when it is handed to \<open>drawBox\<close>; every
      \<open>drawSeparator(width - 3)\<close> is the same call, so the first one decides whether
      it throws\<close>
  "contentLines s width now =
     (if truthy_str (error s) then
        Inr (titleLines width @
             [centerText (colors_red @ the (error s) @ ansi_reset) width,
              [],
              centerText (colors_dim @ str ''[r] Refresh  [ESC] Close'' @ ansi_reset) width] @
             [[]])
      else if loading s then
        Inr (titleLines width @
             [centerText (colors_dim @ str ''Loading...'' @ ansi_reset) width] @ [[]])
      else
        (case drawSeparator (width - 3) of
           Inl e \<Rightarrow> Inl e
         | Inr sep \<Rightarrow>
             (case rateLimitLines (data s) now of
                Inl e \<Rightarrow> Inl e
              | Inr rate \<Rightarrow> Inr (panelHead s width sep @ rate @ panelTail s now sep))))"

record env =
  termCols :: int
  termRows :: int
  clock :: int

definition render :: "state \<Rightarrow> env \<Rightarrow> js_error + jstring list" where
  \<comment> \<open>the chunks written to standard output, in order; every call that can throw comes
      before the first write. \<open>env\<close> holds the terminal size (\<open>getTermSize()\<close>) and the
      reading of \<open>Date.now()\<close>, taken as one instant for the whole repaint.\<close>
  "render s ev =
     (let cols = termCols ev;
          rows = termRows ev;
          width = min cols 72
      in case contentLines s width (clock ev) of
           Inl e \<Rightarrow> Inl e
         | Inr lines \<Rightarrow>
             (case drawBox lines width of
                Inl e \<Rightarrow> Inl e
              | Inr boxed \<Rightarrow>
                  (let startRow = max 1 ((rows - int (length boxed)) div 2);
                       startCol = max 1 ((cols - width) div 2)
                   in Inr ([ansi_clear @ ansi_hideCursor] @
                           map (\<lambda>i. ansi_moveTo (startRow + int i) startCol @ colors_bg @
                                     boxed ! i @ ansi_reset)
                               [0 ..< length boxed]))))"

section \<open>Envelopes from the host\<close>

text \<open>
  A chunk that starts with \<open>__HECA_RPC__\<close> is an envelope: the rest is trimmed and
  handed to \<open>JSON.parse\<close>, which is a parameter here (\<open>None\<close> when it throws a
  \<open>SyntaxError\<close>). A parsed value is a \<open>json\<close>. Reading a property of \<open>null\<close> throws a
  \<open>TypeError\<close>; of an object it gives the member or \<open>undefined\<close> (\<open>None\<close>); of any other
  value it gives \<open>undefined\<close> for the four names the handler reads. The members of an
  object have distinct names. The two variables \<open>termCols\<close> and \<open>termRows\<close> hold whatever
  value was stored last.
\<close>

datatype json =
  JNull | JBool bool | JNum rat | JStr jstring | JArr "json list" | JObj "(jstring \<times> json) list"

definition get_prop :: "json \<Rightarrow> jstring \<Rightarrow> js_error + json option" where
  "get_prop v k =
     (case v of
        JNull \<Rightarrow> Inl TypeError
      | JObj members \<Rightarrow> Inr (map_of members k)
      | _ \<Rightarrow> Inr None)"

fun truthy :: "json option \<Rightarrow> bool" where
  "truthy None = False"
| "truthy (Some JNull) = False"
| "truthy (Some (JBool b)) = b"
| "truthy (Some (JNum n)) = (n \<noteq> 0)"
| "truthy (Some (JStr s)) = (s \<noteq> [])"
| "truthy (Some (JArr _)) = True"
| "truthy (Some (JObj _)) = True"

definition or_else :: "json option \<Rightarrow> json \<Rightarrow> json" where
  \<comment> \<open>\<open>v || d\<close>\<close>
  "or_else v d = (if truthy v then the v else d)"

definition is_space :: "int \<Rightarrow> bool" where
  \<comment> \<open>white space and line terminators, as \<open>trim\<close> removes them\<close>
  "is_space c \<longleftrightarrow>
     c \<in> {9, 10, 11, 12, 13, 32, 160, 5760, 8232, 8233, 8239, 8287, 12288, 65279}
     \<or> (8192 \<le> c \<and> c \<le> 8202)"

definition trim :: "jstring \<Rightarrow> jstring" where
  "trim s = rev (dropWhile is_space (rev (dropWhile is_space s)))"

definition is_envelope :: "jstring \<Rightarrow> bool" where
  \<comment> \<open>\<open>key.startsWith('__HECA_RPC__')\<close>\<close>
  "is_envelope key \<longleftrightarrow> take 12 key = str ''__HECA_RPC__''"

record term_size =
  cols :: json
  rows :: json

definition on_rpc :: "(jstring \<Rightarrow> json option) \<Rightarrow> jstring \<Rightarrow> term_size \<Rightarrow> term_size \<times> bool" where
  \<comment> \<open>the \<open>try\<close> block of the envelope branch: the new terminal size, and whether
      \<open>render(state)\<close> is called. The call is the last statement of the block, and the
      \<open>catch\<close> swallows whatever the block throws.\<close>
  "on_rpc parse key t =
     (case parse (trim (drop 12 key)) of
        None \<Rightarrow> (t, False)
      | Some msg \<Rightarrow>
          (case get_prop msg (str ''method'') of
             Inl e \<Rightarrow> (t, False)
           | Inr m \<Rightarrow>
               if m = Some (JStr (str ''resize'')) then
                 (case get_prop msg (str ''params'') of
                    Inl e \<Rightarrow> (t, False)
                  | Inr p \<Rightarrow>
                      if truthy p then
                        (case get_prop (the p) (str ''cols'') of
                           Inl e \<Rightarrow> (t, False)
                         | Inr c \<Rightarrow>
                             (let t1 = t\<lparr>cols := or_else c (cols t)\<rparr>
                              in case get_prop (the p) (str ''rows'') of
                                   Inl e \<Rightarrow> (t1, False)
                                 | Inr r \<Rightarrow> (t1\<lparr>rows := or_else r (rows t1)\<rparr>, True)))
                      else (t, False))
               else (t, False)))"

section \<open>The refresh controller and the key dispatcher\<close>

text \<open>
  \<open>main\<close> runs on one thread; \<open>refresh\<close> is suspended at \<open>await getCredentials()\<close> and
  at \<open>await fetchUsageLimits(token)\<close>, and between two suspensions any other event can
  be handled. The system is therefore a state and one transition per event: a chunk on
  standard input, a tick of the 60 second timer, the credential lookup of a suspended
  \<open>refresh\<close> settling, its fetch settling. As no call of \<open>refresh\<close> keeps anything of its
  own but the place where it waits, the suspended calls are two counters. Neither
  \<open>getCredentials\<close> nor \<open>fetchUsageLimits\<close> throws: both catch everything.

  The effects are kept in a trace: every call of \<open>render\<close> with what it wrote or threw,
  every call of \<open>fetchUsageLimits\<close> with its token, every rejection of the promise of a
  \<open>refresh\<close> call or of a key handler (what becomes of a rejection is the caller's
  business: the timer drops it), and the close request. The message of a
  \<open>RangeError\<close> is the one V8 gives.
  The handlers of standard input and the timer are installed when the first
  \<open>refresh\<close>, the one \<open>main\<close> awaits, has returned.
\<close>

datatype effect =
  Rendered "js_error + jstring list"
| FetchCall jstring
| Rejected js_error
| CloseRequest

record sys =
  view :: state
  termSize :: term_size
  awaitingCred :: nat
  awaitingFetch :: nat
  listening :: bool
  timerOn :: bool
  trace :: "effect list"

definition message :: "js_error \<Rightarrow> jstring" where
  "message e =
     (case e of
        RangeError n \<Rightarrow> str ''Invalid count value: '' @ show_int n
      | TypeError \<Rightarrow> str ''Cannot read properties of null'')"

definition installed :: "sys \<Rightarrow> sys" where
  \<comment> \<open>\<open>main\<close> goes on behind \<open>await refresh()\<close>: \<open>setInterval\<close> and
      \<open>process.stdin.on('data', ...)\<close>\<close>
  "installed s = (if listening s then s else s\<lparr>listening := True, timerOn := True\<rparr>)"

definition refresh_failed :: "env \<Rightarrow> js_error \<Rightarrow> sys \<Rightarrow> sys" where
  \<comment> \<open>the \<open>catch (e)\<close> block of \<open>refresh\<close>\<close>
  "refresh_failed ev e s =
     (let st1 = (view s)\<lparr>error := Some (str ''Failed to fetch: '' @ message e), loading := False\<rparr>;
          r = render st1 ev;
          s1 = s\<lparr>view := st1, trace := trace s @ [Rendered r]\<rparr>
      in case r of
           Inl e2 \<Rightarrow> s1\<lparr>trace := trace s1 @ [Rejected e2]\<rparr>
         | Inr out \<Rightarrow> installed s1)"

definition refresh_begin :: "env \<Rightarrow> sys \<Rightarrow> sys" where
  \<comment> \<open>a call of \<open>refresh\<close> up to its first suspension; the first \<open>render\<close> is outside
      the \<open>try\<close>\<close>
  "refresh_begin ev s =
     (let st1 = (view s)\<lparr>loading := True, error := None\<rparr>;
          r = render st1 ev;
          s1 = s\<lparr>view := st1, trace := trace s @ [Rendered r]\<rparr>
      in case r of
           Inl e \<Rightarrow> s1\<lparr>trace := trace s1 @ [Rejected e]\<rparr>
         | Inr out \<Rightarrow> s1\<lparr>awaitingCred := Suc (awaitingCred s1)\<rparr>)"

definition refresh_credentials :: "env \<Rightarrow> jstring option \<Rightarrow> sys \<Rightarrow> sys" where
  \<comment> \<open>a \<open>refresh\<close> suspended at \<open>getCredentials\<close> goes on with the token\<close>
  "refresh_credentials ev token s =
     (if awaitingCred s = 0 then s
      else
        (let s0 = s\<lparr>awaitingCred := awaitingCred s - 1\<rparr>
         in if \<not> truthy_str token then
              (let st1 = (view s0)\<lparr>error := Some (str ''No credentials found''), loading := False\<rparr>;
                   r = render st1 ev;
                   s1 = s0\<lparr>view := st1, trace := trace s0 @ [Rendered r]\<rparr>
               in case r of
                    Inl e \<Rightarrow> refresh_failed ev e s1
                  | Inr out \<Rightarrow> installed s1)
            else s0\<lparr>awaitingFetch := Suc (awaitingFetch s0),
                     trace := trace s0 @ [FetchCall (the token)]\<rparr>))"

definition refresh_fetched :: "env \<Rightarrow> usage option \<Rightarrow> sys \<Rightarrow> sys" where
  \<comment> \<open>a \<open>refresh\<close> suspended at \<open>fetchUsageLimits\<close> goes on with the result\<close>
  "refresh_fetched ev d s =
     (if awaitingFetch s = 0 then s
      else
        (let s0 = s\<lparr>awaitingFetch := awaitingFetch s - 1\<rparr>;
             st1 = (view s0)\<lparr>data := d, loading := False, lastRefresh := Some (clock ev),
                              refreshCount := Suc (refreshCount (view s0))\<rparr>;
             r = render st1 ev;
             s1 = s0\<lparr>view := st1, trace := trace s0 @ [Rendered r]\<rparr>
         in case r of
              Inl e \<Rightarrow> refresh_failed ev e s1
            | Inr out \<Rightarrow> installed s1))"

definition set_mode :: "jstring \<Rightarrow> env \<Rightarrow> sys \<Rightarrow> sys" where
  \<comment> \<open>the keys 1, 2 and 3\<close>
  "set_mode m ev s =
     (let st1 = (view s)\<lparr>config := (config (view s))\<lparr>displayMode := m\<rparr>\<rparr>;
          r = render st1 ev;
          s1 = s\<lparr>view := st1, trace := trace s @ [Rendered r]\<rparr>
      in case r of
           Inl e \<Rightarrow> s1\<lparr>trace := trace s1 @ [Rejected e]\<rparr>
         | Inr out \<Rightarrow> s1)"

definition on_key :: "jstring \<Rightarrow> env \<Rightarrow> sys \<Rightarrow> sys" where
  \<comment> \<open>\<open>switch (key)\<close>: the whole chunk is compared\<close>
  "on_key key ev s =
     (if key = str ''r'' \<or> key = str ''R'' then refresh_begin ev s
      else if key = str ''q'' \<or> key = str ''Q'' then s\<lparr>timerOn := False, trace := trace s @ [CloseRequest]\<rparr>
      else if key = str ''1'' then set_mode (str ''compact'') ev s
      else if key = str ''2'' then set_mode (str ''normal'') ev s
      else if key = str ''3'' then set_mode (str ''detailed'') ev s
      else s)"

datatype event =
  Stdin jstring
| Tick
| Credentials "jstring option"
| Fetched "usage option"

definition step :: "(jstring \<Rightarrow> json option) \<Rightarrow> env \<Rightarrow> event \<Rightarrow> sys \<Rightarrow> sys" where
  \<comment> \<open>\<open>ev\<close> is the clock and the terminal size as \<open>render\<close> reads it when the event is
      handled; for an envelope that is the size behind the update of \<open>on_rpc\<close>\<close>
  "step parse ev e s =
     (case e of
        Stdin key \<Rightarrow>
          if \<not> listening s then s
          else if is_envelope key then
            (case on_rpc parse key (termSize s) of
               (t, painted) \<Rightarrow>
                 s\<lparr>termSize := t,
                   trace := trace s @ (if painted then [Rendered (render (view s) ev)] else [])\<rparr>)
          else on_key key ev s
      | Tick \<Rightarrow> if timerOn s then refresh_begin ev s else s
      | Credentials token \<Rightarrow> refresh_credentials ev token s
      | Fetched d \<Rightarrow> refresh_fetched ev d s)"

fun run :: "(jstring \<Rightarrow> json option) \<Rightarrow> (env \<times> event) list \<Rightarrow> sys \<Rightarrow> sys" where
  "run parse [] s = s"
| "run parse ((ev, e) # es) s = run parse es (step parse ev e s)"

definition initial :: "term_size \<Rightarrow> env \<Rightarrow> sys" where
  \<comment> \<open>the state object as \<open>main\<close> creates it\<close>
  "initial t ev =
     \<lparr>view = \<lparr>loading = True, error = None, data = None,
               config = \<lparr>plan = str ''max'', displayMode = str ''detailed''\<rparr>,
               effort = str ''high'', startTime = clock ev, lastRefresh = None,
               refreshCount = 0\<rparr>,
      termSize = t, awaitingCred = 0, awaitingFetch = 0, listening = False, timerOn = False,
      trace = []\<rparr>"

definition boot :: "term_size \<Rightarrow> config \<Rightarrow> jstring \<Rightarrow> env \<Rightarrow> sys" where
  \<comment> \<open>\<open>main\<close> up to the suspension of the \<open>refresh\<close> it awaits: the first repaint, the
      configuration and the effort level that were loaded, and the first call of
      \<open>refresh\<close>. A throw of the first repaint rejects the promise of \<open>main\<close>.\<close>
  "boot t cfg eff ev =
     (let s = initial t ev;
          r = render (view s) ev;
          s1 = s\<lparr>trace := [Rendered r]\<rparr>
      in case r of
           Inl e \<Rightarrow> s1\<lparr>trace := trace s1 @ [Rejected e]\<rparr>
         | Inr out \<Rightarrow> refresh_begin ev (s1\<lparr>view := (view s1)\<lparr>config := cfg, effort := eff\<rparr>\<rparr>))"

definition inFlight :: "sys \<Rightarrow> nat" where
  "inFlight s = awaitingCred s + awaitingFetch s"

section \<open>Padding\<close>

lemma sgr_tail_spaces: "sgr_tail cs = None \<Longrightarrow> sgr_tail (cs @ replicate n 32) = None"
proof (induction cs)
  case Nil
  then show ?case by (cases n) (simp_all add: is_param_def)
next
  case (Cons c cs)
  then show ?case by (auto simp: is_param_def split: if_splits)
qed

lemma sgr_match_not_esc: "c \<noteq> 27 \<Longrightarrow> sgr_match (c # cs) = None"
  by (cases cs) simp_all

lemma sgr_tail_append: "sgr_tail cs = Some r \<Longrightarrow> sgr_tail (cs @ ys) = Some (r @ ys)"
  by (induction cs) (auto split: if_splits)

lemma sgr_match_append: "sgr_match cs = Some r \<Longrightarrow> sgr_match (cs @ ys) = Some (r @ ys)"
  by (cases cs rule: sgr_match.cases) (auto split: if_splits dest: sgr_tail_append)

lemma sgr_match_spaces: "sgr_match cs = None \<Longrightarrow> sgr_match (cs @ replicate n 32) = None"
proof (cases cs)
  case Nil
  then show ?thesis by (cases n) (simp_all add: sgr_match_not_esc)
next
  case outer: (Cons e t)
  assume none: "sgr_match cs = None"
  show ?thesis
  proof (cases t)
    case Nil
    with outer show ?thesis by (cases n) simp_all
  next
    case (Cons b cs')
    with outer none show ?thesis by (auto split: if_splits dest: sgr_tail_spaces)
  qed
qed

lemma strip_ansi_spaces: "strip_ansi (s @ replicate n 32) = strip_ansi s @ replicate n 32"
proof (induction s rule: strip_ansi.induct)
  case 1
  show ?case
  proof (induction n)
    case 0
    show ?case by simp
  next
    case (Suc n)
    have "sgr_match (32 # replicate n 32) = None" by (simp add: sgr_match_not_esc)
    with Suc show ?case by simp
  qed
next
  case (2 c cs)
  show ?case
  proof (cases "sgr_match (c # cs)")
    case None
    from sgr_match_spaces [OF None] have "sgr_match (c # cs @ replicate n 32) = None" by simp
    with None "2.IH"(1) [OF None] show ?thesis by simp
  next
    case (Some r)
    from sgr_match_append [OF Some] have "sgr_match (c # cs @ replicate n 32) = Some (r @ replicate n 32)"
      by simp
    with Some "2.IH"(2) [OF Some] show ?thesis by simp
  qed
qed

text \<open>
  C7. For every string \<open>s\<close> and every width \<open>w\<close>, \<open>padRight s w\<close> is \<open>s\<close> followed by
  \<open>max 0 (w - displayWidth s)\<close> spaces; so its display width is the larger of \<open>w\<close> and
  the display width of \<open>s\<close>, and \<open>s\<close> is a prefix of it.
\<close>

theorem padRight_width:
  "padRight s w = s @ replicate (nat (max 0 (w - int (displayWidth s)))) 32
   \<and> int (displayWidth (padRight s w)) = max w (int (displayWidth s))
   \<and> prefix s (padRight s w)"
  by (auto simp: padRight_def displayWidth_def repeat_unit_def Let_def strip_ansi_spaces)

section \<open>Colour bands\<close>

lemma palette_distinct: "distinct [colors_green, colors_yellow, colors_red]"
  by code_simp

text \<open>
  C9. \<open>colorForPercent\<close> gives the "ok" style (green) up to 50, the "warn" style
  (yellow) above 50 and up to 80, and the "danger" style (red) above 80; the three
  styles differ. It compares and nothing else: a value below 0 or above 100 falls in
  the first or the last band as it is.
\<close>

theorem colorForPercent_bands:
  "(pct \<le> 50 \<longrightarrow> colorForPercent pct = colors_green)
   \<and> (50 < pct \<and> pct \<le> 80 \<longrightarrow> colorForPercent pct = colors_yellow)
   \<and> (80 < pct \<longrightarrow> colorForPercent pct = colors_red)
   \<and> distinct [colors_green, colors_yellow, colors_red]"
  using palette_distinct by (simp add: colorForPercent_def)

theorem colorForPercent_bands_witness:
  "colorForPercent 0 = colors_green \<and> colorForPercent 50 = colors_green
   \<and> colorForPercent (101 / 2) = colors_yellow \<and> colorForPercent 80 = colors_yellow
   \<and> colorForPercent 81 = colors_red \<and> colorForPercent 100 = colors_red
   \<and> colorForPercent (- 5) = colors_green \<and> colorForPercent 250 = colors_red"
  using colorForPercent_bands [of 0] colorForPercent_bands [of 50]
    colorForPercent_bands [of "101 / 2"] colorForPercent_bands [of 80]
    colorForPercent_bands [of 81] colorForPercent_bands [of 100]
    colorForPercent_bands [of "- 5"] colorForPercent_bands [of 250]
  by simp

section \<open>Truncation\<close>

lemma substring_from_0: "substring s 0 b = take (nat b) s"
  by (auto simp: substring_def Let_def min_def max_def)

text \<open>
  C10. \<open>truncate\<close> has a result for every width: the text itself when it fits, and
  otherwise its first \<open>maxLen - 3\<close> units (none when that is not positive, as
  \<open>substring\<close> clamps its end to 0) followed by three dots. So a text wider than a
  \<open>maxLen\<close> below 4 comes back as exactly the three dots.
\<close>

theorem truncate_text_total:
  "truncate_text text maxLen =
     (if int (displayWidth text) \<le> maxLen then text
      else take (nat (maxLen - 3)) text @ str ''...'')
   \<and> (maxLen < int (displayWidth text) \<and> maxLen < 4 \<longrightarrow> truncate_text text maxLen = str ''...'')"
  by (simp add: truncate_text_def substring_from_0)

theorem truncate_text_total_witness:
  "truncate_text (str ''dashboard'') 3 = str ''...''
   \<and> truncate_text (str ''dashboard'') 0 = str ''...''
   \<and> truncate_text (str ''dashboard'') (- 2) = str ''...''
   \<and> truncate_text (colors_red @ str ''ab'' @ ansi_reset) 1 = str ''...''"
proof -
  have w: "int (displayWidth (str ''dashboard'')) = 9" "int (displayWidth (colors_red @ str ''ab'' @ ansi_reset)) = 2"
    by code_simp+
  show ?thesis
    using truncate_text_total [of "str ''dashboard''" 3] truncate_text_total [of "str ''dashboard''" 0]
      truncate_text_total [of "str ''dashboard''" "- 2"]
      truncate_text_total [of "colors_red @ str ''ab'' @ ansi_reset" 1] w
    by simp
qed

section \<open>Durations\<close>

lemma floor_fl_div_numeral:
  assumes "0 \<le> a" and "a < 2 ^ 53"
  shows "\<lfloor>fl (of_int a / 1000)\<rfloor> = a div 1000"
    and "\<lfloor>fl (of_int a / 3600)\<rfloor> = a div 3600"
    and "\<lfloor>fl (of_int a / 60)\<rfloor> = a div 60"
  using floor_fl_div [OF assms(1) _ assms(2), of 1000]
    floor_fl_div [OF assms(1) _ assms(2), of 3600]
    floor_fl_div [OF assms(1) _ assms(2), of 60]
  by simp_all

lemma js_rem_nonneg: "0 \<le> a \<Longrightarrow> 0 < b \<Longrightarrow> js_rem a b = a mod b"
  by (cases "a = 0") (simp_all add: js_rem_def)

lemma duration_parts:
  assumes "0 \<le> ms" and "ms < 2 ^ 53"
  shows "\<lfloor>fl (of_int \<lfloor>fl (of_int ms / 1000)\<rfloor> / 3600)\<rfloor> = ms div 3600000"
    and "\<lfloor>fl (of_int (js_rem \<lfloor>fl (of_int ms / 1000)\<rfloor> 3600) / 60)\<rfloor> = ms div 60000 mod 60"
proof -
  define t where "t = ms div 1000"
  have t: "\<lfloor>fl (of_int ms / 1000)\<rfloor> = t"
    unfolding t_def using assms by (rule floor_fl_div_numeral(1))
  have t0: "0 \<le> t" using assms(1) by (simp add: t_def)
  have "t \<le> ms" using assms(1) by (simp add: t_def)
  then have t53: "t < 2 ^ 53" using assms(2) by simp
  have "\<lfloor>fl (of_int t / 3600)\<rfloor> = t div 3600" using t0 t53 by (rule floor_fl_div_numeral(2))
  also have "\<dots> = ms div 3600000"
    using zdiv_zmult2_eq [of 3600 ms 1000] by (simp add: t_def)
  finally show "\<lfloor>fl (of_int \<lfloor>fl (of_int ms / 1000)\<rfloor> / 3600)\<rfloor> = ms div 3600000"
    by (simp only: t)
  have r: "js_rem t 3600 = t mod 3600" using t0 by (simp add: js_rem_nonneg)
  have r0: "0 \<le> t mod 3600" by simp
  have "t mod 3600 \<le> t" using t0 by (simp add: zmod_le_nonneg_dividend)
  then have r53: "t mod 3600 < 2 ^ 53" using t53 by simp
  have "\<lfloor>fl (of_int (t mod 3600) / 60)\<rfloor> = t mod 3600 div 60"
    using r0 r53 by (rule floor_fl_div_numeral(3))
  also have "\<dots> = t div 60 mod 60"
    using zmod_zmult2_eq [of 60 t 60] by simp
  also have "\<dots> = ms div 60000 mod 60"
    using zdiv_zmult2_eq [of 60 ms 1000] by (simp add: t_def)
  finally show "\<lfloor>fl (of_int (js_rem \<lfloor>fl (of_int ms / 1000)\<rfloor> 3600) / 60)\<rfloor> = ms div 60000 mod 60"
    by (simp only: t r)
qed

text \<open>
  C4. For a whole number of milliseconds \<open>ms\<close> from 0 (below \<open>2\<^sup>5\<^sup>3\<close>, as every
  difference of two clock readings is), with \<open>h\<close> the full hours and \<open>m\<close> the full
  minutes of the last hour, \<open>formatDuration ms\<close> is \<open>h\<close>, "h", \<open>m\<close>, "m" when both are
  positive, \<open>h\<close>, "h" when only the hours are, and \<open>m\<close>, "m" when there is no full
  hour. So 0 gives "0m", 3600000 "1h", 5400000 "1h30m" and 59000 "0m".
\<close>

theorem formatDuration_shape:
  assumes "0 \<le> ms" and "ms < 2 ^ 53"
  shows "formatDuration ms =
           (let h = ms div 3600000; m = ms div 60000 mod 60
            in if 0 < h \<and> 0 < m then show_int h @ str ''h'' @ show_int m @ str ''m''
               else if 0 < h then show_int h @ str ''h''
               else show_int m @ str ''m'')
         \<and> formatDuration 0 = str ''0m''
         \<and> formatDuration 3600000 = str ''1h''
         \<and> formatDuration 5400000 = str ''1h30m''
         \<and> formatDuration 59000 = str ''0m''"
proof -
  have ex: "formatDuration 0 = str ''0m''" "formatDuration 3600000 = str ''1h''"
    "formatDuration 5400000 = str ''1h30m''" "formatDuration 59000 = str ''0m''"
    by code_simp+
  have "formatDuration ms =
           (let h = ms div 3600000; m = ms div 60000 mod 60
            in if 0 < h \<and> 0 < m then show_int h @ str ''h'' @ show_int m @ str ''m''
               else if 0 < h then show_int h @ str ''h''
               else show_int m @ str ''m'')"
    unfolding formatDuration_def Let_def duration_parts [OF assms] by simp
  with ex show ?thesis by simp
qed

theorem formatDuration_shape_witness:
  "formatDuration 5400000 = show_int 1 @ str ''h'' @ show_int 30 @ str ''m''
   \<and> formatDuration 7200000 = show_int 2 @ str ''h''
   \<and> formatDuration 1234567 = show_int 20 @ str ''m''"
  using formatDuration_shape [of 5400000] formatDuration_shape [of 7200000]
    formatDuration_shape [of 1234567]
  by (simp add: Let_def)

section \<open>Control spans\<close>

definition is_span :: "jstring \<Rightarrow> bool" where
  \<comment> \<open>a recognized control span: the pattern of the layout helpers matches all of it\<close>
  "is_span c \<longleftrightarrow> sgr_match c = Some []"







lemma strip_span: "is_span c \<Longrightarrow> strip_ansi (c @ xs) = strip_ansi xs"
proof -
  assume c: "is_span c"
  then obtain e t where ct: "c = e # t" by (cases c) (simp_all add: is_span_def)
  from c have "sgr_match (c @ xs) = Some ([] @ xs)"
    unfolding is_span_def by (rule sgr_match_append)
  then show ?thesis by (simp add: ct)
qed

lemma strip_plain: "27 \<notin> set xs \<Longrightarrow> strip_ansi (xs @ ys) = xs @ strip_ansi ys"
  by (induction xs) (simp_all add: sgr_match_not_esc)


section \<open>The progress bar\<close>
















section \<open>Inserting control spans\<close>

text \<open>
  \<open>insertSpans\<close> is the operation of the specification's property: each pair inserts
  a span at a position of the string built so far. A string \<open>open_end\<close>s when it stops
  inside a control span: one of its suffixes is an \<open>unfinished\<close> span, an escape
  character alone or with its bracket and parameters but no final \<open>m\<close>. A list of
  insertions is \<open>insertable\<close> when each of them puts a recognized span at a position
  whose left part does not stop inside a control span.
\<close>

fun unfinished :: "jstring \<Rightarrow> bool" where
  "unfinished [] = False"
| "unfinished [e] = (e = 27)"
| "unfinished (e # b # ps) = (e = 27 \<and> b = 91 \<and> list_all is_param ps)"

fun open_end :: "jstring \<Rightarrow> bool" where
  "open_end [] = False"
| "open_end (c # cs) = (unfinished (c # cs) \<or> open_end cs)"

fun insertSpans :: "(nat \<times> jstring) list \<Rightarrow> jstring \<Rightarrow> jstring" where
  "insertSpans [] s = s"
| "insertSpans ((i, c) # rest) s = insertSpans rest (take i s @ c @ drop i s)"

fun insertable :: "(nat \<times> jstring) list \<Rightarrow> jstring \<Rightarrow> bool" where
  "insertable [] s = True"
| "insertable ((i, c) # rest) s =
     (is_span c \<and> \<not> open_end (take i s) \<and> insertable rest (take i s @ c @ drop i s))"

lemma sgr_tail_closed:
  "sgr_tail ps = None \<Longrightarrow> \<not> list_all is_param ps \<Longrightarrow> sgr_tail (ps @ x) = None"
  by (induction ps) (auto split: if_splits)

lemma sgr_match_closed:
  assumes "sgr_match (c # cs) = None" and "\<not> unfinished (c # cs)"
  shows "sgr_match (c # cs @ x) = None"
proof (cases cs)
  case Nil
  with assms(2) show ?thesis by (simp add: sgr_match_not_esc)
next
  case (Cons b ps)
  with assms show ?thesis by (auto split: if_splits dest: sgr_tail_closed)
qed

lemma sgr_tail_open: "sgr_tail ps = Some r \<Longrightarrow> open_end r \<Longrightarrow> open_end ps"
  by (induction ps) (auto split: if_splits)

lemma sgr_match_open: "sgr_match a = Some r \<Longrightarrow> open_end r \<Longrightarrow> open_end a"
proof (cases a)
  case Nil
  assume "sgr_match a = Some r"
  with Nil show ?thesis by simp
next
  case outer: (Cons e t)
  assume m: "sgr_match a = Some r" and r: "open_end r"
  show ?thesis
  proof (cases t)
    case Nil
    with outer m show ?thesis by simp
  next
    case (Cons b ps)
    with outer m have "sgr_tail ps = Some r" by (simp split: if_splits)
    from sgr_tail_open [OF this r] have "open_end ps" .
    with outer Cons show ?thesis by simp
  qed
qed

lemma strip_ansi_closed:
  "\<not> open_end a \<Longrightarrow> strip_ansi (a @ x) = strip_ansi a @ strip_ansi x"
proof (induction a rule: strip_ansi.induct)
  case 1
  show ?case by simp
next
  case (2 c cs)
  from "2.prems" have nu: "\<not> unfinished (c # cs)" and nt: "\<not> open_end cs" by simp_all
  show ?case
  proof (cases "sgr_match (c # cs)")
    case None
    from sgr_match_closed [OF None nu] have "sgr_match (c # cs @ x) = None" .
    with None "2.IH"(1) [OF None nt] show ?thesis by simp
  next
    case (Some r)
    from sgr_match_append [OF Some] have m: "sgr_match (c # cs @ x) = Some (r @ x)" by simp
    have "\<not> open_end r" using sgr_match_open [OF Some] "2.prems" by blast
    with Some m "2.IH"(2) [OF Some] show ?thesis by simp
  qed
qed

lemma strip_ansi_insert:
  assumes "is_span c" and "\<not> open_end (take i s)"
  shows "strip_ansi (take i s @ c @ drop i s) = strip_ansi s"
proof -
  have "strip_ansi (take i s @ c @ drop i s) = strip_ansi (take i s) @ strip_ansi (c @ drop i s)"
    using assms(2) by (rule strip_ansi_closed)
  also have "\<dots> = strip_ansi (take i s) @ strip_ansi (drop i s)"
    using assms(1) by (simp add: strip_span)
  also have "\<dots> = strip_ansi (take i s @ drop i s)"
    using assms(2) by (rule strip_ansi_closed [symmetric])
  finally show ?thesis by simp
qed

lemma strip_ansi_insertSpans:
  "insertable ins s \<Longrightarrow> strip_ansi (insertSpans ins s) = strip_ansi s"
proof (induction ins s rule: insertSpans.induct)
  case (1 s)
  show ?case by simp
next
  case (2 i c rest s)
  then show ?case by (simp add: strip_ansi_insert)
qed

text \<open>
  C8, as the code has it. The display width does not change under any number of
  insertions of recognized control spans, each at a position that is not inside a
  control span of the string built so far. A recognized control span alone has width 0,
  and a string without an escape character has its length as width.
\<close>

theorem displayWidth_insertSpans:
  "(insertable ins s \<longrightarrow> displayWidth (insertSpans ins s) = displayWidth s)
   \<and> (is_span c \<longrightarrow> displayWidth c = 0)
   \<and> (27 \<notin> set t \<longrightarrow> displayWidth t = length t)"
proof -
  have "strip_ansi (c @ []) = strip_ansi []" if "is_span c"
    using that by (rule strip_span)
  moreover have "strip_ansi (t @ []) = t @ strip_ansi []" if "27 \<notin> set t"
    using that by (rule strip_plain)
  ultimately show ?thesis
    by (simp add: displayWidth_def strip_ansi_insertSpans)
qed

theorem displayWidth_insertSpans_witness:
  "insertable [(0, colors_red), (20, ansi_bold), (24, ansi_reset), (29, ansi_reset)] (str ''ab'')
   \<and> insertSpans [(0, colors_red), (20, ansi_bold), (24, ansi_reset), (29, ansi_reset)] (str ''ab'')
       = colors_red @ str ''a'' @ ansi_bold @ ansi_reset @ str ''b'' @ ansi_reset
   \<and> displayWidth (colors_red @ str ''a'' @ ansi_bold @ ansi_reset @ str ''b'' @ ansi_reset) = 2
   \<and> displayWidth (str ''ab'') = 2
   \<and> displayWidth ansi_bold = 0"
proof -
  have h: "insertable [(0, colors_red), (20, ansi_bold), (24, ansi_reset), (29, ansi_reset)] (str ''ab'')"
    by code_simp
  have e: "insertSpans [(0, colors_red), (20, ansi_bold), (24, ansi_reset), (29, ansi_reset)] (str ''ab'')
       = colors_red @ str ''a'' @ ansi_bold @ ansi_reset @ str ''b'' @ ansi_reset"
    by code_simp
  have p: "27 \<notin> set (str ''ab'')" by (simp add: str_def)
  have b: "is_span ansi_bold" by code_simp
  note inst = displayWidth_insertSpans
    [of "[(0, colors_red), (20, ansi_bold), (24, ansi_reset), (29, ansi_reset)]" "str ''ab''"
      ansi_bold "str ''ab''"]
  from inst [THEN conjunct2, THEN conjunct2] p
  have "displayWidth (str ''ab'') = length (str ''ab'')" by (rule mp)
  then have w: "displayWidth (str ''ab'') = 2" by (simp add: str_def)
  from inst [THEN conjunct2, THEN conjunct1] b
  have z: "displayWidth ansi_bold = 0" by (rule mp)
  from inst [THEN conjunct1] h
  have "displayWidth (insertSpans [(0, colors_red), (20, ansi_bold), (24, ansi_reset), (29, ansi_reset)]
          (str ''ab'')) = displayWidth (str ''ab'')"
    by (rule mp)
  then have "displayWidth (colors_red @ str ''a'' @ ansi_bold @ ansi_reset @ str ''b'' @ ansi_reset) = 2"
    unfolding e w .
  with h e w z show ?thesis by blast
qed

text \<open>
  C8, as the specification has it, allows every position. A reset inserted behind the
  bracket of the red colour sequence leaves that sequence broken: its 19 units are no
  longer recognized and count as printable.
\<close>

theorem displayWidth_insert_counterexample:
  "is_span ansi_reset
   \<and> displayWidth (colors_red @ str ''ab'') = 2
   \<and> insertSpans [(2, ansi_reset)] (colors_red @ str ''ab'')
       = CSI @ ansi_reset @ str ''38;2;230;110;110mab''
   \<and> displayWidth (insertSpans [(2, ansi_reset)] (colors_red @ str ''ab'')) = 21"
  by code_simp

section \<open>Facts about the controller\<close>

text \<open>
  \<open>fetchCalls\<close> reads the tokens of the calls of \<open>fetchUsageLimits\<close> off a trace. A
  state is \<open>accounted\<close> when every such call is either still awaited or has been
  counted in \<open>refreshCount\<close>.
\<close>

fun fetchCalls :: "effect list \<Rightarrow> jstring list" where
  "fetchCalls [] = []"
| "fetchCalls (FetchCall token # es) = token # fetchCalls es"
| "fetchCalls (e # es) = fetchCalls es"

lemma fetchCalls_append: "fetchCalls (xs @ ys) = fetchCalls xs @ fetchCalls ys"
  by (induction xs rule: fetchCalls.induct) simp_all

lemma render_plain_ok:
  assumes "truthy_str (error st) \<or> loading st" and "2 \<le> termCols ev"
  shows "\<exists>out. render st ev = Inr out"
  using assms by (auto simp: render_def contentLines_def drawBox_def repeat_def Let_def)

lemma refresh_begin_inFlight:
  assumes "2 \<le> termCols ev"
  shows "inFlight (refresh_begin ev s) = Suc (inFlight s)"
proof -
  let ?st = "(view s)\<lparr>loading := True, error := None\<rparr>"
  have "truthy_str (error ?st) \<or> loading ?st" by simp
  from render_plain_ok [OF this assms] obtain out where "render ?st ev = Inr out" ..
  then show ?thesis by (simp add: refresh_begin_def inFlight_def Let_def)
qed

lemma installed_fields [simp]:
  "view (installed s) = view s" "trace (installed s) = trace s"
  "awaitingCred (installed s) = awaitingCred s" "awaitingFetch (installed s) = awaitingFetch s"
  by (simp_all add: installed_def)

lemma refresh_failed_fields [simp]:
  "refreshCount (view (refresh_failed ev e s)) = refreshCount (view s)"
  "data (view (refresh_failed ev e s)) = data (view s)"
  "lastRefresh (view (refresh_failed ev e s)) = lastRefresh (view s)"
  "loading (view (refresh_failed ev e s)) = False"
  "awaitingCred (refresh_failed ev e s) = awaitingCred s"
  "awaitingFetch (refresh_failed ev e s) = awaitingFetch s"
  "fetchCalls (trace (refresh_failed ev e s)) = fetchCalls (trace s)"
  by (simp_all add: refresh_failed_def Let_def fetchCalls_append split: sum.split)

lemma refresh_begin_fields [simp]:
  "refreshCount (view (refresh_begin ev s)) = refreshCount (view s)"
  "awaitingFetch (refresh_begin ev s) = awaitingFetch s"
  "fetchCalls (trace (refresh_begin ev s)) = fetchCalls (trace s)"
  by (simp_all add: refresh_begin_def Let_def fetchCalls_append split: sum.split)

lemma set_mode_fields [simp]:
  "refreshCount (view (set_mode m ev s)) = refreshCount (view s)"
  "awaitingFetch (set_mode m ev s) = awaitingFetch s"
  "fetchCalls (trace (set_mode m ev s)) = fetchCalls (trace s)"
  by (simp_all add: set_mode_def Let_def fetchCalls_append split: sum.split)

lemma on_key_fields [simp]:
  "refreshCount (view (on_key key ev s)) = refreshCount (view s)"
  "awaitingFetch (on_key key ev s) = awaitingFetch s"
  "fetchCalls (trace (on_key key ev s)) = fetchCalls (trace s)"
  by (simp_all add: on_key_def fetchCalls_append)

lemma refresh_credentials_fields [simp]:
  "refreshCount (view (refresh_credentials ev token s)) = refreshCount (view s)"
  by (simp add: refresh_credentials_def Let_def split: sum.split)

lemma refresh_fetched_count:
  "refreshCount (view (refresh_fetched ev d s)) =
     refreshCount (view s) + (if 0 < awaitingFetch s then 1 else 0)"
  by (simp add: refresh_fetched_def Let_def split: sum.split)

lemma step_count:
  "refreshCount (view (step parse ev e s)) =
     refreshCount (view s) +
     (case e of Fetched d \<Rightarrow> if 0 < awaitingFetch s then 1 else 0 | _ \<Rightarrow> 0)"
  by (cases e) (simp_all add: step_def refresh_fetched_count split: prod.split)

definition accounted :: "sys \<Rightarrow> bool" where
  "accounted s \<longleftrightarrow> length (fetchCalls (trace s)) = awaitingFetch s + refreshCount (view s)"

lemma accounted_credentials: "accounted s \<Longrightarrow> accounted (refresh_credentials ev token s)"
  by (auto simp: accounted_def refresh_credentials_def Let_def fetchCalls_append split: sum.split)

lemma accounted_fetched: "accounted s \<Longrightarrow> accounted (refresh_fetched ev d s)"
  by (auto simp: accounted_def refresh_fetched_def Let_def fetchCalls_append split: sum.split)

lemma accounted_step: "accounted s \<Longrightarrow> accounted (step parse ev e s)"
proof (cases e)
  case (Stdin key)
  assume "accounted s"
  then show ?thesis
    by (auto simp: Stdin step_def accounted_def fetchCalls_append split: prod.split)
next
  case Tick
  assume "accounted s"
  then show ?thesis by (simp add: Tick step_def accounted_def)
next
  case (Credentials token)
  assume "accounted s"
  then show ?thesis by (simp add: Credentials step_def accounted_credentials)
next
  case (Fetched d)
  assume "accounted s"
  then show ?thesis by (simp add: Fetched step_def accounted_fetched)
qed

lemma accounted_run: "accounted s \<Longrightarrow> accounted (run parse es s)"
  by (induction es arbitrary: s) (auto simp: accounted_step)

lemma accounted_boot: "accounted (boot t cfg eff ev)"
  by (simp add: boot_def initial_def accounted_def Let_def split: sum.split)

section \<open>Example states\<close>

text \<open>
  An 80 by 24 terminal; a controller with a refresh waiting for its credentials after
  one finished cycle; one with a second refresh waiting for its fetch as well; and the
  run in which, after the first cycle, the key \<open>r\<close> and a timer tick start two
  refreshes whose credential lookups then both succeed.
\<close>

definition example_env :: env where
  "example_env = \<lparr>termCols = 80, termRows = 24, clock = 1000\<rparr>"

definition example_size :: term_size where
  "example_size = \<lparr>cols = JNum 80, rows = JNum 24\<rparr>"

definition example_config :: config where
  "example_config = \<lparr>plan = str ''max'', displayMode = str ''detailed''\<rparr>"

definition example_waiting :: sys where
  "example_waiting =
     \<lparr>view = \<lparr>loading = True, error = None, data = None, config = example_config,
               effort = str ''high'', startTime = 0, lastRefresh = Some 500,
               refreshCount = 1\<rparr>,
      termSize = example_size, awaitingCred = 1, awaitingFetch = 0, listening = True,
      timerOn = True, trace = [FetchCall (str ''token'')]\<rparr>"

definition example_busy :: sys where
  "example_busy =
     \<lparr>view = \<lparr>loading = True, error = None, data = None, config = example_config,
               effort = str ''high'', startTime = 0, lastRefresh = Some 500,
               refreshCount = 1\<rparr>,
      termSize = example_size, awaitingCred = 1, awaitingFetch = 1, listening = True,
      timerOn = True, trace = [FetchCall (str ''token''), FetchCall (str ''token'')]\<rparr>"

definition overlap_run :: sys where
  "overlap_run =
     run (\<lambda>_. None)
       [(example_env, Credentials (Some (str ''token''))),
        (example_env, Fetched None),
        (example_env, Stdin (str ''r'')),
        (example_env, Tick),
        (example_env, Credentials (Some (str ''token''))),
        (example_env, Credentials (Some (str ''token'')))]
       (boot example_size example_config (str ''high'') example_env)"

definition counters :: "sys \<Rightarrow> nat \<times> nat \<times> nat \<times> jstring list" where
  "counters s = (awaitingCred s, awaitingFetch s, refreshCount (view s), fetchCalls (trace s))"

lemma overlap_run_counters:
  "counters overlap_run = (0, 2, 1, [str ''token'', str ''token'', str ''token''])"
  by code_simp

section \<open>Overlapping refreshes\<close>

lemma refresh_key_no_envelope: "key = str ''r'' \<or> key = str ''R'' \<Longrightarrow> \<not> is_envelope key"
  by (auto simp: is_envelope_def str_def)

text \<open>
  C1, as the code has it. \<open>refresh\<close> has no guard: the key \<open>r\<close> or \<open>R\<close> and the timer
  each start a refresh of their own whatever is in flight already (one more is in
  flight as soon as its first repaint is drawn, which a terminal of two columns or more
  allows), and every refresh that gets a token calls \<open>fetchUsageLimits\<close>, whatever
  fetches are awaited already. \<open>refreshCount\<close> goes up by exactly one when the fetch
  of a refresh settles and stays as it is at every other event, a trigger included; and
  in every state reached from the start the calls of \<open>fetchUsageLimits\<close> made so far
  are those still awaited plus \<open>refreshCount\<close>.
\<close>

theorem refresh_not_guarded:
  "(listening s \<and> 2 \<le> termCols ev \<and> (key = str ''r'' \<or> key = str ''R'') \<longrightarrow>
      inFlight (step parse ev (Stdin key) s) = Suc (inFlight s))
   \<and> (timerOn s \<and> 2 \<le> termCols ev \<longrightarrow> inFlight (step parse ev Tick s) = Suc (inFlight s))
   \<and> (0 < awaitingCred s \<and> truthy_str token \<longrightarrow>
        awaitingFetch (step parse ev (Credentials token) s) = Suc (awaitingFetch s)
        \<and> fetchCalls (trace (step parse ev (Credentials token) s)) =
            fetchCalls (trace s) @ [the token])
   \<and> refreshCount (view (step parse ev e s)) =
       refreshCount (view s) +
       (case e of Fetched d \<Rightarrow> if 0 < awaitingFetch s then 1 else 0 | _ \<Rightarrow> 0)
   \<and> length (fetchCalls (trace (run parse es (boot t cfg eff ev0)))) =
       awaitingFetch (run parse es (boot t cfg eff ev0)) +
       refreshCount (view (run parse es (boot t cfg eff ev0)))"
proof -
  have key: "inFlight (step parse ev (Stdin key) s) = Suc (inFlight s)"
    if "listening s" and "2 \<le> termCols ev" and "key = str ''r'' \<or> key = str ''R''"
  proof -
    have "step parse ev (Stdin key) s = refresh_begin ev s"
      using that(1,3) refresh_key_no_envelope [OF that(3)] by (auto simp: step_def on_key_def)
    then show ?thesis using refresh_begin_inFlight [OF that(2)] by simp
  qed
  have tick: "inFlight (step parse ev Tick s) = Suc (inFlight s)"
    if "timerOn s" and "2 \<le> termCols ev"
    using that refresh_begin_inFlight [OF that(2)] by (simp add: step_def)
  have cred: "awaitingFetch (step parse ev (Credentials token) s) = Suc (awaitingFetch s)
        \<and> fetchCalls (trace (step parse ev (Credentials token) s)) =
            fetchCalls (trace s) @ [the token]"
    if "0 < awaitingCred s" and "truthy_str token"
    using that by (simp add: step_def refresh_credentials_def Let_def fetchCalls_append)
  have "accounted (run parse es (boot t cfg eff ev0))"
    using accounted_boot by (rule accounted_run)
  then have inv: "length (fetchCalls (trace (run parse es (boot t cfg eff ev0)))) =
       awaitingFetch (run parse es (boot t cfg eff ev0)) +
       refreshCount (view (run parse es (boot t cfg eff ev0)))"
    by (simp add: accounted_def)
  from key tick cred step_count [of parse ev e s] inv show ?thesis by blast
qed

theorem refresh_not_guarded_witness:
  "inFlight (step (\<lambda>_. None) example_env (Stdin (str ''r'')) example_busy) = 3
   \<and> inFlight (step (\<lambda>_. None) example_env Tick example_busy) = 3
   \<and> refreshCount (view (step (\<lambda>_. None) example_env (Stdin (str ''r'')) example_busy)) = 1
   \<and> refreshCount (view (step (\<lambda>_. None) example_env Tick example_busy)) = 1
   \<and> refreshCount (view (step (\<lambda>_. None) example_env (Fetched None) example_busy)) = 2
   \<and> awaitingFetch (step (\<lambda>_. None) example_env (Credentials (Some (str ''token''))) example_busy) = 2"
proof -
  have h: "listening example_busy" "timerOn example_busy" "2 \<le> termCols example_env"
    "inFlight example_busy = 2" "awaitingFetch example_busy = 1"
    "refreshCount (view example_busy) = 1" "0 < awaitingCred example_busy"
    "truthy_str (Some (str ''token''))"
    by (simp_all add: example_busy_def example_env_def inFlight_def truthy_str_def str_def)
  show ?thesis
    using refresh_not_guarded [of example_busy example_env "str ''r''" "\<lambda>_. None"
        "Some (str ''token'')" "Stdin (str ''r'')"]
      refresh_not_guarded [of example_busy example_env "str ''r''" "\<lambda>_. None"
        "Some (str ''token'')" Tick]
      refresh_not_guarded [of example_busy example_env "str ''r''" "\<lambda>_. None"
        "Some (str ''token'')" "Fetched None"]
      h
    by simp
qed

text \<open>
  C1, as the specification has it, fails in \<open>overlap_run\<close>: two refreshes are in flight
  and both have called \<open>fetchUsageLimits\<close> while neither has returned.
\<close>

theorem refresh_overlap_counterexample:
  "inFlight overlap_run = 2 \<and> awaitingFetch overlap_run = 2
   \<and> refreshCount (view overlap_run) = 1
   \<and> fetchCalls (trace overlap_run) = [str ''token'', str ''token'', str ''token'']"
  using overlap_run_counters by (simp add: counters_def inFlight_def)

section \<open>A refresh without credentials\<close>

text \<open>
  C5. When the credential lookup of a waiting refresh gives no token (\<open>null\<close> or the
  empty string), the refresh sets \<open>error\<close> to "No credentials found" and \<open>loading\<close> to
  false and calls \<open>render\<close> on that state: this is the next effect in the trace. It
  does not call \<open>fetchUsageLimits\<close>, leaves \<open>data\<close>, \<open>lastRefresh\<close> and \<open>refreshCount\<close>
  as they are, and is no longer in flight. When that repaint can be drawn (two columns
  or more) it is the only effect, and the error message stays.
\<close>

theorem refresh_no_credentials:
  assumes "0 < awaitingCred s" and "\<not> truthy_str token"
  shows "take (Suc (length (trace s))) (trace (refresh_credentials ev token s)) =
           trace s @ [Rendered (render ((view s)\<lparr>error := Some (str ''No credentials found''),
                                                 loading := False\<rparr>) ev)]
         \<and> fetchCalls (trace (refresh_credentials ev token s)) = fetchCalls (trace s)
         \<and> awaitingFetch (refresh_credentials ev token s) = awaitingFetch s
         \<and> awaitingCred (refresh_credentials ev token s) = awaitingCred s - 1
         \<and> data (view (refresh_credentials ev token s)) = data (view s)
         \<and> lastRefresh (view (refresh_credentials ev token s)) = lastRefresh (view s)
         \<and> refreshCount (view (refresh_credentials ev token s)) = refreshCount (view s)
         \<and> loading (view (refresh_credentials ev token s)) = False
         \<and> (2 \<le> termCols ev \<longrightarrow>
              error (view (refresh_credentials ev token s)) = Some (str ''No credentials found'')
              \<and> trace (refresh_credentials ev token s) =
                  trace s @ [Rendered (render ((view s)\<lparr>error := Some (str ''No credentials found''),
                                                        loading := False\<rparr>) ev)])"
proof -
  let ?st = "(view s)\<lparr>error := Some (str ''No credentials found''), loading := False\<rparr>"
  have t: "truthy_str (error ?st) \<or> loading ?st" by (simp add: truthy_str_def str_def)
  have wide: "\<exists>out. render ?st ev = Inr out" if "2 \<le> termCols ev"
    using render_plain_ok [OF t that] .
  show ?thesis
    using assms wide
    by (auto simp: refresh_credentials_def refresh_failed_def Let_def fetchCalls_append
        split: sum.split)
qed

theorem refresh_no_credentials_witness:
  "error (view (refresh_credentials example_env None example_waiting)) =
     Some (str ''No credentials found'')
   \<and> loading (view (refresh_credentials example_env None example_waiting)) = False
   \<and> fetchCalls (trace (refresh_credentials example_env None example_waiting)) = [str ''token'']
   \<and> awaitingCred (refresh_credentials example_env None example_waiting) = 0
   \<and> awaitingFetch (refresh_credentials example_env None example_waiting) = 0
   \<and> refreshCount (view (refresh_credentials example_env None example_waiting)) = 1
   \<and> lastRefresh (view (refresh_credentials example_env None example_waiting)) = Some 500
   \<and> data (view (refresh_credentials example_env None example_waiting)) = None"
proof -
  have h: "0 < awaitingCred example_waiting" "\<not> truthy_str None" "2 \<le> termCols example_env"
    by (simp_all add: example_waiting_def truthy_str_def example_env_def)
  have v: "fetchCalls (trace example_waiting) = [str ''token'']" "awaitingCred example_waiting = 1"
    "awaitingFetch example_waiting = 0" "refreshCount (view example_waiting) = 1"
    "lastRefresh (view example_waiting) = Some 500" "data (view example_waiting) = None"
    by (simp_all add: example_waiting_def)
  from refresh_no_credentials [OF h(1,2), of example_env] h(3) v show ?thesis
    by (simp add: fetchCalls_append)
qed

section \<open>Resize envelopes\<close>

text \<open>
  Two payloads and what \<open>JSON.parse\<close> makes of them, for the examples below.
\<close>

definition quoted :: "string \<Rightarrow> jstring" where
  "quoted s = [34] @ str s @ [34]"

definition resize_payload :: jstring where
  \<comment> \<open>a resize to 120 columns that reports 0 rows\<close>
  "resize_payload =
     str ''{'' @ quoted ''jsonrpc'' @ str '':'' @ quoted ''2.0'' @ str '','' @
     quoted ''method'' @ str '':'' @ quoted ''resize'' @ str '','' @
     quoted ''params'' @ str '':{'' @ quoted ''cols'' @ str '':120,'' @
     quoted ''rows'' @ str '':0},'' @ quoted ''id'' @ str '':1}''"

definition bare_resize_payload :: jstring where
  \<comment> \<open>a resize without parameters\<close>
  "bare_resize_payload =
     str ''{'' @ quoted ''jsonrpc'' @ str '':'' @ quoted ''2.0'' @ str '','' @
     quoted ''method'' @ str '':'' @ quoted ''resize'' @ str '','' @
     quoted ''id'' @ str '':1}''"

definition example_parse :: "jstring \<Rightarrow> json option" where
  \<comment> \<open>\<open>JSON.parse\<close> on the two payloads above; anything else counts as malformed\<close>
  "example_parse payload =
     (if payload = resize_payload then
        Some (JObj [(str ''jsonrpc'', JStr (str ''2.0'')),
                    (str ''method'', JStr (str ''resize'')),
                    (str ''params'', JObj [(str ''cols'', JNum 120), (str ''rows'', JNum 0)]),
                    (str ''id'', JNum 1)])
      else if payload = bare_resize_payload then
        Some (JObj [(str ''jsonrpc'', JStr (str ''2.0'')),
                    (str ''method'', JStr (str ''resize'')),
                    (str ''id'', JNum 1)])
      else None)"

lemma truthy_not_null: "truthy (Some v) \<Longrightarrow> v \<noteq> JNull"
  by (cases v) simp_all

text \<open>
  C6, as the code has it. For an envelope whose method is \<open>resize\<close> and whose \<open>params\<close>
  is an object, \<open>cols\<close> and \<open>rows\<close> are stored as they come, except that a missing or
  falsy member (zero among them) leaves the stored value, and \<open>render\<close> is called. When
  \<open>params\<close> is another truthy value nothing is stored and \<open>render\<close> is called. When
  \<open>params\<close> is missing or falsy, when the method is not \<open>resize\<close>, and when the payload
  does not parse, the envelope changes nothing and \<open>render\<close> is not called. In the
  controller an envelope touches nothing but the terminal size and the trace, where it
  leaves at most the call of \<open>render\<close>.
\<close>

theorem on_rpc_resize:
  "(parse (trim (drop 12 key)) = Some (JObj ms)
      \<and> map_of ms (str ''method'') = Some (JStr (str ''resize''))
      \<and> map_of ms (str ''params'') = Some (JObj ps) \<longrightarrow>
        on_rpc parse key t =
          (\<lparr>cols = or_else (map_of ps (str ''cols'')) (cols t),
            rows = or_else (map_of ps (str ''rows'')) (rows t)\<rparr>, True))
   \<and> or_else None d = d \<and> or_else (Some (JNum 0)) d = d
   \<and> (truthy (Some v) \<longrightarrow> or_else (Some v) d = v)
   \<and> (\<not> truthy w \<longrightarrow> or_else w d = d)
   \<and> (parse (trim (drop 12 key)) = Some (JObj ms)
      \<and> map_of ms (str ''method'') = Some (JStr (str ''resize''))
      \<and> map_of ms (str ''params'') = Some p \<and> truthy (Some p) \<and> (\<forall>qs. p \<noteq> JObj qs) \<longrightarrow>
        on_rpc parse key t = (t, True))
   \<and> (parse (trim (drop 12 key)) = Some (JObj ms)
      \<and> map_of ms (str ''method'') = Some (JStr (str ''resize''))
      \<and> \<not> truthy (map_of ms (str ''params'')) \<longrightarrow>
        on_rpc parse key t = (t, False))
   \<and> (parse (trim (drop 12 key)) = Some msg
      \<and> get_prop msg (str ''method'') \<noteq> Inr (Some (JStr (str ''resize''))) \<longrightarrow>
        on_rpc parse key t = (t, False))
   \<and> (parse (trim (drop 12 key)) = None \<longrightarrow> on_rpc parse key t = (t, False))
   \<and> (listening s \<and> is_envelope key \<longrightarrow>
        view (step parse ev (Stdin key) s) = view s
        \<and> termSize (step parse ev (Stdin key) s) = fst (on_rpc parse key (termSize s))
        \<and> awaitingCred (step parse ev (Stdin key) s) = awaitingCred s
        \<and> awaitingFetch (step parse ev (Stdin key) s) = awaitingFetch s
        \<and> trace (step parse ev (Stdin key) s) =
            trace s @ (if snd (on_rpc parse key (termSize s))
                       then [Rendered (render (view s) ev)] else []))"
proof -
  have a: "on_rpc parse key t =
          (\<lparr>cols = or_else (map_of ps (str ''cols'')) (cols t),
            rows = or_else (map_of ps (str ''rows'')) (rows t)\<rparr>, True)"
    if "parse (trim (drop 12 key)) = Some (JObj ms)"
      and "map_of ms (str ''method'') = Some (JStr (str ''resize''))"
      and "map_of ms (str ''params'') = Some (JObj ps)"
    using that by (simp add: on_rpc_def get_prop_def Let_def)
  have b: "on_rpc parse key t = (t, True)"
    if "parse (trim (drop 12 key)) = Some (JObj ms)"
      and "map_of ms (str ''method'') = Some (JStr (str ''resize''))"
      and "map_of ms (str ''params'') = Some p" and "truthy (Some p)" and "\<forall>qs. p \<noteq> JObj qs"
    using that by (cases p) (simp_all add: on_rpc_def get_prop_def Let_def or_else_def)
  have c: "on_rpc parse key t = (t, False)"
    if "parse (trim (drop 12 key)) = Some (JObj ms)"
      and "map_of ms (str ''method'') = Some (JStr (str ''resize''))"
      and "\<not> truthy (map_of ms (str ''params''))"
    using that by (simp add: on_rpc_def get_prop_def)
  have d: "on_rpc parse key t = (t, False)"
    if "parse (trim (drop 12 key)) = Some msg"
      and "get_prop msg (str ''method'') \<noteq> Inr (Some (JStr (str ''resize'')))"
    using that by (simp add: on_rpc_def split: sum.split)
  have e: "on_rpc parse key t = (t, False)" if "parse (trim (drop 12 key)) = None"
    using that by (simp add: on_rpc_def)
  have f: "view (step parse ev (Stdin key) s) = view s
        \<and> termSize (step parse ev (Stdin key) s) = fst (on_rpc parse key (termSize s))
        \<and> awaitingCred (step parse ev (Stdin key) s) = awaitingCred s
        \<and> awaitingFetch (step parse ev (Stdin key) s) = awaitingFetch s
        \<and> trace (step parse ev (Stdin key) s) =
            trace s @ (if snd (on_rpc parse key (termSize s))
                       then [Rendered (render (view s) ev)] else [])"
    if "listening s" and "is_envelope key"
    using that by (simp add: step_def split: prod.split)
  have g: "or_else None d = d" "or_else (Some (JNum 0)) d = d"
    "truthy (Some v) \<longrightarrow> or_else (Some v) d = v" "\<not> truthy w \<longrightarrow> or_else w d = d"
    by (simp_all add: or_else_def)
  from a b c d e f g show ?thesis by blast
qed


theorem on_rpc_resize_witness:
  "on_rpc example_parse (str ''__HECA_RPC__'' @ resize_payload @ [10]) example_size =
     (\<lparr>cols = JNum 120, rows = JNum 24\<rparr>, True)
   \<and> on_rpc example_parse (str ''__HECA_RPC__{oops'') example_size = (example_size, False)
   \<and> on_rpc (\<lambda>_. Some (JObj [(str ''method'', JStr (str ''ping''))])) (str ''__HECA_RPC__'')
        example_size = (example_size, False)
   \<and> on_rpc (\<lambda>_. Some (JObj [(str ''method'', JStr (str ''resize'')), (str ''params'', JNum 5)]))
        (str ''__HECA_RPC__'') example_size = (example_size, True)
   \<and> view (step example_parse example_env (Stdin (str ''__HECA_RPC__{oops'')) example_waiting) =
        view example_waiting
   \<and> trace (step example_parse example_env (Stdin (str ''__HECA_RPC__{oops'')) example_waiting) =
        trace example_waiting"
proof -
  let ?ms = "[(str ''jsonrpc'', JStr (str ''2.0'')), (str ''method'', JStr (str ''resize'')),
              (str ''params'', JObj [(str ''cols'', JNum 120), (str ''rows'', JNum 0)]),
              (str ''id'', JNum 1)]"
  let ?ps = "[(str ''cols'', JNum 120), (str ''rows'', JNum 0)]"
  have p1: "example_parse (trim (drop 12 (str ''__HECA_RPC__'' @ resize_payload @ [10]))) =
              Some (JObj ?ms)"
    by code_simp
  have m1: "map_of ?ms (str ''method'') = Some (JStr (str ''resize''))"
    "map_of ?ms (str ''params'') = Some (JObj ?ps)"
    by code_simp+
  have v1: "or_else (map_of ?ps (str ''cols'')) (cols example_size) = JNum 120"
    "or_else (map_of ?ps (str ''rows'')) (rows example_size) = JNum 24"
    by code_simp+
  have p2: "example_parse (trim (drop 12 (str ''__HECA_RPC__{oops''))) = None"
    by code_simp
  have m3: "get_prop (JObj [(str ''method'', JStr (str ''ping''))]) (str ''method'') \<noteq>
              Inr (Some (JStr (str ''resize'')))"
    by code_simp
  have m4: "map_of [(str ''method'', JStr (str ''resize'')), (str ''params'', JNum 5)] (str ''method'')
              = Some (JStr (str ''resize''))"
    "map_of [(str ''method'', JStr (str ''resize'')), (str ''params'', JNum 5)] (str ''params'')
              = Some (JNum 5)"
    by code_simp+
  have l: "listening example_waiting" "is_envelope (str ''__HECA_RPC__{oops'')"
    by code_simp+
  have a: "on_rpc example_parse (str ''__HECA_RPC__'' @ resize_payload @ [10]) example_size =
     (\<lparr>cols = JNum 120, rows = JNum 24\<rparr>, True)"
    using on_rpc_resize [of example_parse "str ''__HECA_RPC__'' @ resize_payload @ [10]" ?ms ?ps
        example_size] p1 m1 v1
    by simp
  have b: "on_rpc example_parse (str ''__HECA_RPC__{oops'') example_size = (example_size, False)"
    using on_rpc_resize [of example_parse "str ''__HECA_RPC__{oops''"] p2 by simp
  have c: "on_rpc (\<lambda>_. Some (JObj [(str ''method'', JStr (str ''ping''))])) (str ''__HECA_RPC__'')
        example_size = (example_size, False)"
    using on_rpc_resize [of "\<lambda>_. Some (JObj [(str ''method'', JStr (str ''ping''))])"
        "str ''__HECA_RPC__''" _ _ _ _ _ _ _ "JObj [(str ''method'', JStr (str ''ping''))]"] m3
    by simp
  have d: "on_rpc (\<lambda>_. Some (JObj [(str ''method'', JStr (str ''resize'')), (str ''params'', JNum 5)]))
        (str ''__HECA_RPC__'') example_size = (example_size, True)"
    using on_rpc_resize [of "\<lambda>_. Some (JObj [(str ''method'', JStr (str ''resize'')), (str ''params'', JNum 5)])"
        "str ''__HECA_RPC__''" "[(str ''method'', JStr (str ''resize'')), (str ''params'', JNum 5)]"
        _ _ _ _ _ "JNum 5"] m4
    by simp
  have e: "view (step example_parse example_env (Stdin (str ''__HECA_RPC__{oops'')) example_waiting) =
        view example_waiting
   \<and> trace (step example_parse example_env (Stdin (str ''__HECA_RPC__{oops'')) example_waiting) =
        trace example_waiting"
    using on_rpc_resize [of example_parse "str ''__HECA_RPC__{oops''" _ _ "termSize example_waiting"
        _ _ _ _ _ example_waiting example_env] p2 l
    by simp
  from a b c d e show ?thesis by blast
qed

text \<open>
  C6, as the specification has it, promises a repaint behind every envelope that carries
  the method \<open>resize\<close>. One without \<open>params\<close> is dropped: no repaint follows.
\<close>

theorem on_rpc_resize_counterexample:
  "get_prop (the (example_parse (trim (drop 12 (str ''__HECA_RPC__'' @ bare_resize_payload @ [10])))))
     (str ''method'') = Inr (Some (JStr (str ''resize'')))
   \<and> on_rpc example_parse (str ''__HECA_RPC__'' @ bare_resize_payload @ [10]) example_size =
       (example_size, False)
   \<and> trace (step example_parse example_env
               (Stdin (str ''__HECA_RPC__'' @ bare_resize_payload @ [10])) example_waiting) =
       trace example_waiting"
  by code_simp

section \<open>The rate limit lines\<close>











end
